theory Spec2Isabelle
  imports Complex_Main "HOL-Library.Log_Nat" "HOL-Library.AList"
begin

section \<open>Work-item kinds, modifiers and their configuration keys\<close>

text \<open>
  The dashboard of \<^verbatim>\<open>src/RadTach-Latest.tsx\<close> indexes its two configuration objects by
  the string literals of the union types \<^verbatim>\<open>Modality\<close> and \<^verbatim>\<open>Complication\<close>.
\<close>

datatype Modality = XR | FL | CT | US | MR | NM | MA | PET_CT

datatype Complication =
    CancerFollow | Plus1Section | Plus2Section | MultiplePriors | AgeOver70
  | ComplexHx | PriorSurgHx | CTA | Bilateral | Vascular

fun modalityKey :: "Modality \<Rightarrow> string" where
  "modalityKey XR = ''XR''"
| "modalityKey FL = ''FL''"
| "modalityKey CT = ''CT''"
| "modalityKey US = ''US''"
| "modalityKey MR = ''MR''"
| "modalityKey NM = ''NM''"
| "modalityKey MA = ''MA''"
| "modalityKey PET_CT = ''PET-CT''"

fun complicationKey :: "Complication \<Rightarrow> string" where
  "complicationKey CancerFollow = ''Cancer Follow''"
| "complicationKey Plus1Section = ''+1 Section''"
| "complicationKey Plus2Section = ''+2 Section''"
| "complicationKey MultiplePriors = ''Multiple Priors''"
| "complicationKey AgeOver70 = ''Age >70''"
| "complicationKey ComplexHx = ''Complex Hx''"
| "complicationKey PriorSurgHx = ''Prior Surg Hx''"
| "complicationKey CTA = ''CTA''"
| "complicationKey Bilateral = ''Bilateral''"
| "complicationKey Vascular = ''Vascular''"

section \<open>JavaScript numbers\<close>

text \<open>
  Par times, variances and RVU values are IEEE-754 binary64 numbers, and \<^verbatim>\<open>+\<close>, \<^verbatim>\<open>-\<close>,
  \<^verbatim>\<open>*\<close> and \<^verbatim>\<open>/\<close> on them round the exact result to the nearest double, ties to even.
  A double is modelled as the rational it denotes. The exponent range is left unbounded (no overflow to
  \<^verbatim>\<open>Infinity\<close>, no subnormals) and \<^verbatim>\<open>NaN\<close> is not a value: the configuration writers
  replace it by 0 (\<^verbatim>\<open>parseFloat(value) || 0\<close>).

  \<open>ilog2 x\<close> is the binade of a positive rational, \<open>2 ^ ilog2 x \<le> x < 2 ^ (ilog2 x + 1)\<close>;
  \<open>fl\<close> rounds to 53 significant bits.
\<close>

definition ilog2 :: "rat \<Rightarrow> int" where
  "ilog2 x = (let p = fst (quotient_of x); q = snd (quotient_of x);
                  d = int (floorlog 2 (nat p)) - int (floorlog 2 (nat q))
              in if 2 powi d \<le> x then d else d - 1)"

definition roundHalfEven :: "rat \<Rightarrow> int" where
  "roundHalfEven y = (let f = \<lfloor>y\<rfloor>; r = y - of_int f
                      in if r < 1/2 then f else if 1/2 < r then f + 1
                         else if even f then f else f + 1)"

definition fl :: "rat \<Rightarrow> rat" where
  "fl x = (if x = 0 then 0
           else let u = 2 powi (ilog2 \<bar>x\<bar> - 52)
                in sgn x * (of_int (roundHalfEven (\<bar>x\<bar> / u)) * u))"

typedef double = "range fl"
  morphisms ratOf mkDouble
  by blast

setup_lifting type_definition_double

text \<open>A numeric literal, or the double nearest to an exact value.\<close>

lift_definition toDouble :: "rat \<Rightarrow> double" is fl
  by (rule rangeI)

lift_definition jadd :: "double \<Rightarrow> double \<Rightarrow> double" is "\<lambda>a b. fl (a + b)"
  by (rule rangeI)

lift_definition jsub :: "double \<Rightarrow> double \<Rightarrow> double" is "\<lambda>a b. fl (a - b)"
  by (rule rangeI)

lift_definition jmul :: "double \<Rightarrow> double \<Rightarrow> double" is "\<lambda>a b. fl (a * b)"
  by (rule rangeI)

lift_definition jdiv :: "double \<Rightarrow> double \<Rightarrow> double" is "\<lambda>a b. fl (a / b)"
  by (rule rangeI)

text \<open>\<^verbatim>\<open>a <= b\<close> and \<^verbatim>\<open>Math.floor\<close>.\<close>

definition jle :: "double \<Rightarrow> double \<Rightarrow> bool" where
  "jle a b = (ratOf a \<le> ratOf b)"

definition jfloor :: "double \<Rightarrow> int" where
  "jfloor a = \<lfloor>ratOf a\<rfloor>"

definition jzero :: double where
  "jzero = toDouble 0"

text \<open>
  The largest finite double, \<open>(2^53 - 1) * 2^971\<close>. JavaScript gives \<^verbatim>\<open>Infinity\<close> for a
  result beyond it; the properties below that depend on a result being finite say so
  with this bound.
\<close>

definition maxDouble :: rat where
  "maxDouble = (2 ^ 53 - 1) * 2 ^ 971"

text \<open>A counter of whole seconds used as an operand of \<^verbatim>\<open>-\<close> or \<^verbatim>\<open>/\<close>.\<close>

definition ofInt :: "int \<Rightarrow> double" where
  "ofInt n = toDouble (of_int n)"

section \<open>Par times\<close>

text \<open>
  \<^verbatim>\<open>ParTimesConfig\<close> is an object from keys to numbers, an association list in insertion
  order. Its entries are doubles: the settings dialog and the import write whatever
  \<^verbatim>\<open>parseInt\<close> returns, which can be negative or as large as the user types, and the sum
  of \<^verbatim>\<open>calculateParTime\<close> is rounded like every JavaScript addition.
\<close>

type_synonym ParTimesConfig = "(string \<times> double) list"

definition defaultParTimes :: ParTimesConfig where
  "defaultParTimes =
    [(''XR'', toDouble 90), (''FL'', toDouble 120), (''CT'', toDouble 240),
     (''US'', toDouble 120), (''MR'', toDouble 240), (''NM'', toDouble 240),
     (''MA'', toDouble 240), (''PET-CT'', toDouble 600), (''Cancer Follow'', toDouble 240),
     (''+1 Section'', toDouble 120), (''+2 Section'', toDouble 240),
     (''Multiple Priors'', toDouble 120), (''Age >70'', toDouble 120),
     (''Complex Hx'', toDouble 120), (''Prior Surg Hx'', toDouble 120),
     (''CTA'', toDouble 180), (''Bilateral'', toDouble 0), (''Vascular'', toDouble 120)]"

text \<open>\<^verbatim>\<open>parTimes[key] || 0\<close>: a missing entry reads as 0 (and so does an entry 0).\<close>

definition parTimeOr0 :: "ParTimesConfig \<Rightarrow> string \<Rightarrow> double" where
  "parTimeOr0 cfg k = (case map_of cfg k of None \<Rightarrow> jzero | Some v \<Rightarrow> v)"

text \<open>
  One round of the \<^verbatim>\<open>forEach\<close> of \<^verbatim>\<open>calculateParTime\<close>, on the pair of its two local
  variables \<^verbatim>\<open>(total, hasBilateral)\<close>: \<^verbatim>\<open>total += parTimes[comp] || 0\<close> is an addition
  of doubles.
\<close>

definition parTimeStep ::
  "ParTimesConfig \<Rightarrow> double \<times> bool \<Rightarrow> Complication \<Rightarrow> double \<times> bool" where
  "parTimeStep cfg acc cmp =
     (if cmp = Bilateral then (fst acc, True)
      else (jadd (fst acc) (parTimeOr0 cfg (complicationKey cmp)), snd acc))"

definition calculateParTime ::
  "ParTimesConfig \<Rightarrow> Modality option \<Rightarrow> Complication list \<Rightarrow> double" where
  "calculateParTime cfg selectedModality selectedComplications =
     (case selectedModality of
        None \<Rightarrow> jzero
      | Some m \<Rightarrow>
          (let acc = foldl (parTimeStep cfg) (parTimeOr0 cfg (modalityKey m), False)
                       selectedComplications
           in if snd acc then jmul (fst acc) (toDouble 2) else fst acc))"

section \<open>RVU values\<close>

text \<open>
  \<^verbatim>\<open>RVUConfig\<close> maps a key to a number or to an object from modality to number. What is
  stored comes from \<^verbatim>\<open>JSON.parse\<close> as well, so an entry may be any JSON value (an array
  counts as an object, with its indices as keys).
\<close>

datatype jsval =
  JNum double | JObj "(string \<times> jsval) list" | JNull | JBool bool | JStr string

type_synonym RVUConfig = "(string \<times> jsval) list"

definition defaultRVUValues :: RVUConfig where
  "defaultRVUValues =
    [(''XR'', JNum (toDouble (2/10))), (''FL'', JNum (toDouble (4/10))),
     (''CT'', JNum (toDouble 1)), (''US'', JNum (toDouble (5/10))),
     (''MR'', JNum (toDouble (13/10))), (''NM'', JNum (toDouble (6/10))),
     (''MA'', JNum (toDouble (13/10))), (''PET-CT'', JNum (toDouble (24/10))),
     (''+1 Section'', JObj [(''CT'', JNum (toDouble (5/10))), (''US'', JNum (toDouble (5/10)))]),
     (''+2 Section'', JObj [(''CT'', JNum (toDouble 1))]),
     (''CTA'', JObj [(''CT'', JNum (toDouble (4/10)))])]"

text \<open>
  One round of the \<^verbatim>\<open>forEach\<close> of \<^verbatim>\<open>calculateRVU\<close>: \<^verbatim>\<open>compRVU !== undefined\<close>, then
  an object with a numeric entry for the modality, or a number; anything else adds nothing.
\<close>

definition rvuStep :: "RVUConfig \<Rightarrow> Modality \<Rightarrow> double \<Rightarrow> Complication \<Rightarrow> double" where
  "rvuStep cfg m totalSoFar c =
     (case map_of cfg (complicationKey c) of
        None \<Rightarrow> totalSoFar
      | Some (JObj obj) \<Rightarrow>
          (case map_of obj (modalityKey m) of
             Some (JNum modalitySpecificRVU) \<Rightarrow> jadd totalSoFar modalitySpecificRVU
           | _ \<Rightarrow> totalSoFar)
      | Some (JNum compRVU) \<Rightarrow> jadd totalSoFar compRVU
      | _ \<Rightarrow> totalSoFar)"

definition calculateRVU ::
  "RVUConfig \<Rightarrow> Modality option \<Rightarrow> Complication list \<Rightarrow> double" where
  "calculateRVU cfg selectedModality selectedComplications =
     (case selectedModality of
        None \<Rightarrow> jzero
      | Some m \<Rightarrow>
          foldl (rvuStep cfg m)
            (case map_of cfg (modalityKey m) of Some (JNum modalityRVU) \<Rightarrow> modalityRVU | _ \<Rightarrow> jzero)
            selectedComplications)"

text \<open>
  The valuation as the specification words it: the kind's value, 0 if missing or not a
  number, and for each modifier its entry for the kind, its plain number, or 0.
\<close>

definition kindUnitValue :: "RVUConfig \<Rightarrow> Modality \<Rightarrow> double" where
  "kindUnitValue cfg m =
     (case map_of cfg (modalityKey m) of Some (JNum v) \<Rightarrow> v | _ \<Rightarrow> jzero)"

definition modifierUnitValue :: "RVUConfig \<Rightarrow> Modality \<Rightarrow> Complication \<Rightarrow> double" where
  "modifierUnitValue cfg m c =
     (case map_of cfg (complicationKey c) of
        Some (JNum v) \<Rightarrow> v
      | Some (JObj obj) \<Rightarrow> (case map_of obj (modalityKey m) of Some (JNum v) \<Rightarrow> v | _ \<Rightarrow> jzero)
      | _ \<Rightarrow> jzero)"

section \<open>Session state\<close>

text \<open>
  The component's \<^verbatim>\<open>useState\<close> cells that the timers and metrics use, as one record.
  Counters of seconds, events and studies only grow by one at a time from 0, so they are
  whole numbers far below \<open>2^53\<close> and are modelled as \<open>int\<close>. Par times, variances and RVU
  totals depend on the configured values and are doubles. The fields of \<^verbatim>\<open>DraftStudyData\<close> carry the prefix \<open>draft\<close> and the
  field \<^verbatim>\<open>rvu\<close> of a completed study is \<open>studyRvu\<close>, since a record field is a constant.
\<close>

record LastStudyData =
  variance :: double
  rvu :: double
  streakBefore :: int

record DraftStudyData =
  draftModality :: "Modality option"
  draftComplications :: "Complication list"
  draftCurrentTime :: int
  draftParTime :: double

record CompletedStudy =
  timestamp :: int
  studyRvu :: double

record session =
  isRunning :: bool
  currentTime :: int
  cumulativeVariance :: double
  studiesCompleted :: int
  isPaused :: bool
  doubleTapTime :: int
  isDoubleTapRunning :: bool
  doubleTapEvents :: int
  studyWasAutoPaused :: bool
  sessionTime :: int
  interstitialTime :: int
  isInterstitialRunning :: bool
  isSessionTimeRunning :: bool
  adminTime :: int
  commsTime :: int
  isAdminTimeRunning :: bool
  isCommsTimeRunning :: bool
  adminEvents :: int
  commsEvents :: int
  selectedModality :: "Modality option"
  selectedComplications :: "Complication list"
  parTimes :: ParTimesConfig
  rvuValues :: RVUConfig
  totalRVU :: double
  rvuPerHour :: double
  completedStudies :: "CompletedStudy list"
  rollingRVU :: double
  lastStudy :: "LastStudyData option"
  currentStreak :: int
  isDraftMode :: bool
  draftStudy :: "DraftStudyData option"
  isBreakTimeRunning :: bool
  breakTime :: int
  breaksTaken :: int
  timeSinceLastBreak :: int
  showBreakPrompt :: bool
  breakPromptHours :: int
  showAnimalMessage :: bool
  lastBreakDeclineTime :: int
  autoStartEnabled :: bool

definition initialSession :: session where
  "initialSession =
    \<lparr>isRunning = False, currentTime = 0, cumulativeVariance = jzero,
     studiesCompleted = 0,
     isPaused = False, doubleTapTime = 0, isDoubleTapRunning = False, doubleTapEvents = 0,
     studyWasAutoPaused = False, sessionTime = 0, interstitialTime = 0,
     isInterstitialRunning = False, isSessionTimeRunning = False, adminTime = 0,
     commsTime = 0, isAdminTimeRunning = False, isCommsTimeRunning = False, adminEvents = 0,
     commsEvents = 0, selectedModality = None, selectedComplications = [],
     parTimes = defaultParTimes, rvuValues = defaultRVUValues, totalRVU = jzero,
     rvuPerHour = jzero, completedStudies = [], rollingRVU = jzero, lastStudy = None,
     currentStreak = 0, isDraftMode = False, draftStudy = None, isBreakTimeRunning = False,
     breakTime = 0, breaksTaken = 0, timeSinceLastBreak = 0, showBreakPrompt = False,
     breakPromptHours = 2, showAnimalMessage = False, lastBreakDeclineTime = 0,
     autoStartEnabled = False\<rparr>"

text \<open>\<^verbatim>\<open>currentParTime\<close> and \<^verbatim>\<open>currentStudyRVU\<close>, computed at every render.\<close>

definition currentParTime :: "session \<Rightarrow> double" where
  "currentParTime s = calculateParTime (parTimes s) (selectedModality s) (selectedComplications s)"

definition currentStudyRVU :: "session \<Rightarrow> double" where
  "currentStudyRVU s = calculateRVU (rvuValues s) (selectedModality s) (selectedComplications s)"

section \<open>The one-second intervals\<close>

text \<open>
  Every running flag owns a \<^verbatim>\<open>setInterval\<close> of 1000 ms that adds one to its counter;
  \<open>tick\<close> is one second of all of them.
\<close>

definition tick :: "session \<Rightarrow> session" where
  "tick s = s
    \<lparr>currentTime := (if isRunning s then currentTime s + 1 else currentTime s),
     doubleTapTime := (if isDoubleTapRunning s then doubleTapTime s + 1 else doubleTapTime s),
     sessionTime := (if isSessionTimeRunning s then sessionTime s + 1 else sessionTime s),
     interstitialTime :=
       (if isInterstitialRunning s then interstitialTime s + 1 else interstitialTime s),
     adminTime := (if isAdminTimeRunning s then adminTime s + 1 else adminTime s),
     commsTime := (if isCommsTimeRunning s then commsTime s + 1 else commsTime s),
     breakTime := (if isBreakTimeRunning s then breakTime s + 1 else breakTime s),
     timeSinceLastBreak :=
       (if isSessionTimeRunning s \<and> \<not> isBreakTimeRunning s then timeSinceLastBreak s + 1
        else timeSinceLastBreak s)\<rparr>"

section \<open>Event handlers\<close>

text \<open>
  A handler reads the state of the render it was created in and queues its updates, which
  React applies together: each handler is a function from that state to the next one. Where
  a cell is set twice, the later call wins.
\<close>

text \<open>
  \<^verbatim>\<open>toggleTimer\<close>. On the first start it sets the interstitial flag and schedules
  \<^verbatim>\<open>setTimeout(() => setIsInterstitialRunning(false), 0)\<close>.
\<close>

definition toggleTimer :: "session \<Rightarrow> session" where
  "toggleTimer s =
    (if selectedModality s = None \<and> \<not> isRunning s then s
     else if \<not> isRunning s then
       (let s1 = s\<lparr>isRunning := True, isPaused := False, isInterstitialRunning := False,
                    isAdminTimeRunning := False, isCommsTimeRunning := False,
                    isBreakTimeRunning := False\<rparr>
        in if \<not> isSessionTimeRunning s
           then s1\<lparr>isSessionTimeRunning := True, isInterstitialRunning := True\<rparr>
           else s1)
     else s\<lparr>isRunning := False, isPaused := True, isInterstitialRunning := True\<rparr>)"

definition schedulesInterstitialStop :: "session \<Rightarrow> bool" where
  "schedulesInterstitialStop s \<longleftrightarrow>
     \<not> (selectedModality s = None \<and> \<not> isRunning s) \<and> \<not> isRunning s \<and> \<not> isSessionTimeRunning s"

definition interstitialStop :: "session \<Rightarrow> session" where
  "interstitialStop s = s\<lparr>isInterstitialRunning := False\<rparr>"

text \<open>The click on Par Time together with the zero-delay callback it may have scheduled.\<close>

definition toggleTimerSettled :: "session \<Rightarrow> session" where
  "toggleTimerSettled s =
    (if schedulesInterstitialStop s then interstitialStop (toggleTimer s) else toggleTimer s)"

text \<open>The break policy evaluated at the end of \<^verbatim>\<open>completeStudy\<close>.\<close>

definition timeInMinutes :: "session \<Rightarrow> double" where
  "timeInMinutes s = jdiv (ofInt (timeSinceLastBreak s)) (ofInt 60)"

definition timeSinceDeclineMinutes :: "session \<Rightarrow> double" where
  "timeSinceDeclineMinutes s =
    (if lastBreakDeclineTime s > 0
     then jdiv (ofInt (timeSinceLastBreak s - lastBreakDeclineTime s)) (ofInt 60)
     else timeInMinutes s)"

definition breakPromptDue :: "session \<Rightarrow> bool" where
  "breakPromptDue s \<longleftrightarrow>
     jle (ofInt 120) (timeInMinutes s) \<and> jle (ofInt 60) (timeSinceDeclineMinutes s)"

text \<open>The two guards of \<^verbatim>\<open>completeStudy\<close> pass.\<close>

definition completes :: "session \<Rightarrow> bool" where
  "completes s \<longleftrightarrow> selectedModality s \<noteq> None \<and> \<not> (currentTime s = 0 \<and> \<not> isRunning s)"

text \<open>\<^verbatim>\<open>const variance = currentTime - currentParTime\<close>, a subtraction of doubles.\<close>

definition studyVariance :: "session \<Rightarrow> double" where
  "studyVariance s = jsub (ofInt (currentTime s)) (currentParTime s)"

text \<open>\<^verbatim>\<open>completeStudy\<close>; \<open>now\<close> is the value of \<^verbatim>\<open>Date.now()\<close>, in milliseconds.\<close>

definition completeStudy :: "int \<Rightarrow> session \<Rightarrow> session" where
  "completeStudy now s =
    (if selectedModality s = None then s
     else if currentTime s = 0 \<and> \<not> isRunning s then s
     else
       (let variance = studyVariance s;
            newTotalRVU = jadd (totalRVU s) (currentStudyRVU s);
            updatedStudies =
              completedStudies s @ [\<lparr>timestamp = now, studyRvu = currentStudyRVU s\<rparr>];
            sixtyMinutesAgo = now - 60 * 60 * 1000;
            recentStudies = filter (\<lambda>study. sixtyMinutesAgo \<le> timestamp study) updatedStudies;
            calculatedRollingRVU =
              foldl (\<lambda>sum study. jadd sum (studyRvu study)) jzero recentStudies
        in s\<lparr>isRunning := False,
             currentStreak := (if jle variance jzero then min (currentStreak s + 1) 6 else 0),
             lastStudy := Some \<lparr>variance = variance, rvu = currentStudyRVU s,
                                streakBefore = currentStreak s\<rparr>,
             cumulativeVariance := jadd (cumulativeVariance s) variance,
             totalRVU := newTotalRVU,
             rvuPerHour :=
               (if sessionTime s > 0
                then jdiv newTotalRVU (jdiv (ofInt (sessionTime s)) (ofInt 3600))
                else rvuPerHour s),
             completedStudies := updatedStudies,
             rollingRVU := calculatedRollingRVU,
             studiesCompleted := studiesCompleted s + 1,
             isInterstitialRunning := True,
             currentTime := 0,
             isPaused := False,
             selectedModality := None,
             selectedComplications := [],
             breakPromptHours :=
               (if breakPromptDue s then jfloor (jdiv (timeInMinutes s) (ofInt 60))
                else breakPromptHours s),
             showBreakPrompt := (if breakPromptDue s then True else showBreakPrompt s)\<rparr>))"

definition undoLastStudy :: "session \<Rightarrow> session" where
  "undoLastStudy s =
    (case lastStudy s of
       None \<Rightarrow> s
     | Some l \<Rightarrow>
         (let newTotalRVU = jsub (totalRVU s) (rvu l)
          in s\<lparr>cumulativeVariance := jsub (cumulativeVariance s) (variance l),
               currentStreak := streakBefore l,
               totalRVU := newTotalRVU,
               rvuPerHour :=
                 (if sessionTime s > 0
                  then jdiv newTotalRVU (jdiv (ofInt (sessionTime s)) (ofInt 3600))
                  else jzero),
               studiesCompleted := studiesCompleted s - 1,
               lastStudy := None\<rparr>))"

definition toggleAdminTime :: "session \<Rightarrow> session" where
  "toggleAdminTime s =
    (if \<not> isAdminTimeRunning s then
       (let s1 = s\<lparr>isAdminTimeRunning := True, isInterstitialRunning := False,
                    isCommsTimeRunning := False, adminEvents := adminEvents s + 1\<rparr>;
            isStudyInProgress = (selectedModality s \<noteq> None \<and> isRunning s)
        in if isStudyInProgress
           then s1\<lparr>isRunning := False, isPaused := True, studyWasAutoPaused := True\<rparr>
           else s1)
     else
       (let s1 = s\<lparr>isAdminTimeRunning := False, isInterstitialRunning := True\<rparr>
        in if studyWasAutoPaused s
           then s1\<lparr>isRunning := True, isPaused := False, studyWasAutoPaused := False\<rparr>
           else s1))"

definition toggleCommsTime :: "session \<Rightarrow> session" where
  "toggleCommsTime s =
    (if \<not> isCommsTimeRunning s then
       (let s1 = s\<lparr>isCommsTimeRunning := True, isInterstitialRunning := False,
                    isAdminTimeRunning := False, commsEvents := commsEvents s + 1\<rparr>;
            isStudyInProgress = (selectedModality s \<noteq> None \<and> isRunning s)
        in if isStudyInProgress
           then s1\<lparr>isRunning := False, isPaused := True, studyWasAutoPaused := True\<rparr>
           else s1)
     else
       (let s1 = s\<lparr>isCommsTimeRunning := False, isInterstitialRunning := True\<rparr>
        in if studyWasAutoPaused s
           then s1\<lparr>isRunning := True, isPaused := False, studyWasAutoPaused := False\<rparr>
           else s1))"

definition toggleBreakTime :: "session \<Rightarrow> session" where
  "toggleBreakTime s =
    (if \<not> isBreakTimeRunning s then
       s\<lparr>isBreakTimeRunning := True, isInterstitialRunning := False,
         isAdminTimeRunning := False, isCommsTimeRunning := False,
         timeSinceLastBreak := 0, lastBreakDeclineTime := 0,
         breaksTaken := breaksTaken s + 1\<rparr>
     else s\<lparr>isBreakTimeRunning := False, isInterstitialRunning := True\<rparr>)"

definition toggleDoubleTap :: "session \<Rightarrow> session" where
  "toggleDoubleTap s =
    (let isStudyInProgress = (selectedModality s \<noteq> None \<or> currentTime s > 0)
     in if isStudyInProgress \<and> \<not> isDoubleTapRunning s then s
        else if \<not> isDoubleTapRunning s then
          s\<lparr>isDoubleTapRunning := True, isInterstitialRunning := False,
            doubleTapEvents := doubleTapEvents s + 1\<rparr>
        else s\<lparr>isDoubleTapRunning := False, isInterstitialRunning := True,
               doubleTapTime := 0\<rparr>)"

definition toggleAutoStart :: "session \<Rightarrow> session" where
  "toggleAutoStart s = s\<lparr>autoStartEnabled := \<not> autoStartEnabled s\<rparr>"

definition toggleDraft :: "session \<Rightarrow> session" where
  "toggleDraft s =
    (if \<not> isDraftMode s then
       (if selectedModality s = None then s
        else s\<lparr>isRunning := False,
               draftStudy := Some \<lparr>draftModality = selectedModality s,
                                   draftComplications = selectedComplications s,
                                   draftCurrentTime = currentTime s,
                                   draftParTime = currentParTime s\<rparr>,
               selectedModality := None,
               selectedComplications := [],
               currentTime := 0,
               isInterstitialRunning := True,
               isDraftMode := True\<rparr>)
     else
       (case draftStudy s of
          None \<Rightarrow> s
        | Some d \<Rightarrow>
            if isRunning s then s
            else s\<lparr>selectedModality := draftModality d,
                   selectedComplications := draftComplications d,
                   currentTime := draftCurrentTime d,
                   isDraftMode := False,
                   draftStudy := None\<rparr>))"

definition toggleComplication :: "Complication \<Rightarrow> session \<Rightarrow> session" where
  "toggleComplication complication s =
    (if complication \<in> set (selectedComplications s)
     then s\<lparr>selectedComplications := filter (\<lambda>c. c \<noteq> complication) (selectedComplications s)\<rparr>
     else s\<lparr>selectedComplications := selectedComplications s @ [complication]\<rparr>)"

text \<open>The inline handlers of the modality buttons, the Interstitial tile and the two modals.\<close>

definition selectModality :: "Modality \<Rightarrow> session \<Rightarrow> session" where
  "selectModality m s = s\<lparr>selectedModality := Some m\<rparr>"

definition resumeInterstitial :: "session \<Rightarrow> session" where
  "resumeInterstitial s =
    (if isAdminTimeRunning s \<or> isCommsTimeRunning s
     then s\<lparr>isAdminTimeRunning := False, isCommsTimeRunning := False,
            isInterstitialRunning := True\<rparr>
     else s)"

definition acceptBreak :: "session \<Rightarrow> session" where
  "acceptBreak s = (toggleBreakTime s)\<lparr>showBreakPrompt := False\<rparr>"

definition declineBreak :: "session \<Rightarrow> session" where
  "declineBreak s =
     s\<lparr>showBreakPrompt := False, showAnimalMessage := True,
       lastBreakDeclineTime := timeSinceLastBreak s\<rparr>"

definition closeAnimalMessage :: "session \<Rightarrow> session" where
  "closeAnimalMessage s = s\<lparr>showAnimalMessage := False\<rparr>"

section \<open>Sequences of events\<close>

text \<open>
  What can happen to a mounted component: a click, a second passing, or a new
  configuration object (from the settings dialogs, the import, the reset or the load from
  local storage). The two buttons of the break prompt exist only while it is shown, and so
  does the button of the message that follows a decline.
\<close>

datatype event =
    SelectModality Modality
  | ToggleComplication Complication
  | ClickParTime
  | ClickElapsedTime int
  | ClickUndo
  | ClickAdminTime
  | ClickCommsTime
  | ClickBreak
  | ClickDoubleTap
  | ClickAuto
  | ClickDraft
  | ClickInterstitial
  | AcceptBreak
  | DeclineBreak
  | CloseAnimalMessage
  | Tick
  | SetParTimes ParTimesConfig
  | SetRVUValues RVUConfig

fun handle :: "event \<Rightarrow> session \<Rightarrow> session" where
  "handle (SelectModality m) s = selectModality m s"
| "handle (ToggleComplication c) s = toggleComplication c s"
| "handle ClickParTime s = toggleTimerSettled s"
| "handle (ClickElapsedTime now) s = completeStudy now s"
| "handle ClickUndo s = undoLastStudy s"
| "handle ClickAdminTime s = toggleAdminTime s"
| "handle ClickCommsTime s = toggleCommsTime s"
| "handle ClickBreak s = toggleBreakTime s"
| "handle ClickDoubleTap s = toggleDoubleTap s"
| "handle ClickAuto s = toggleAutoStart s"
| "handle ClickDraft s = toggleDraft s"
| "handle ClickInterstitial s = resumeInterstitial s"
| "handle AcceptBreak s = (if showBreakPrompt s then acceptBreak s else s)"
| "handle DeclineBreak s = (if showBreakPrompt s then declineBreak s else s)"
| "handle CloseAnimalMessage s = (if showAnimalMessage s then closeAnimalMessage s else s)"
| "handle Tick s = tick s"
| "handle (SetParTimes p) s = s\<lparr>parTimes := p\<rparr>"
| "handle (SetRVUValues r) s = s\<lparr>rvuValues := r\<rparr>"

text \<open>
  The auto-start effect, with dependencies \<^verbatim>\<open>[selectedModality, autoStartEnabled]\<close>: it
  runs after a render in which one of the two changed, and calls \<^verbatim>\<open>toggleTimer\<close>.
\<close>

definition autoStartEffect :: "session \<Rightarrow> session \<Rightarrow> session" where
  "autoStartEffect before s =
    (if (selectedModality s \<noteq> selectedModality before \<or>
         autoStartEnabled s \<noteq> autoStartEnabled before) \<and>
        autoStartEnabled s \<and> selectedModality s \<noteq> None \<and> \<not> isRunning s \<and> \<not> isDraftMode s
     then toggleTimerSettled s
     else s)"

definition step :: "session \<Rightarrow> event \<Rightarrow> session" where
  "step s e = autoStartEffect s (handle e s)"

definition run :: "session \<Rightarrow> event list \<Rightarrow> session" where
  "run s es = foldl step s es"

text \<open>How many of the six accruing categories are active.\<close>

definition activeCategories :: "session \<Rightarrow> nat" where
  "activeCategories s =
     length (filter (\<lambda>b. b)
       [isRunning s, isInterstitialRunning s, isAdminTimeRunning s, isCommsTimeRunning s,
        isBreakTimeRunning s, isDoubleTapRunning s])"

section \<open>The specification's target duration\<close>

text \<open>
  The target duration in the words of the specification, over whole seconds: the entry of
  the kind plus the entries of the selected modifiers other than Bilateral, doubled when
  Bilateral is selected. \<open>wholeSeconds\<close> is the data model's constraint on an entry, a
  non-negative whole number.
\<close>

definition wholeSeconds :: "double \<Rightarrow> bool" where
  "wholeSeconds v \<longleftrightarrow> 0 \<le> ratOf v \<and> ratOf v = of_int \<lfloor>ratOf v\<rfloor>"

definition targetSeconds :: "ParTimesConfig \<Rightarrow> string \<Rightarrow> int" where
  "targetSeconds cfg k = \<lfloor>ratOf (parTimeOr0 cfg k)\<rfloor>"

definition specAdditive :: "ParTimesConfig \<Rightarrow> Modality \<Rightarrow> Complication list \<Rightarrow> int" where
  "specAdditive cfg m cs =
     targetSeconds cfg (modalityKey m) +
     (\<Sum>c\<leftarrow>filter (\<lambda>c. c \<noteq> Bilateral) cs. targetSeconds cfg (complicationKey c))"

definition specParTime :: "ParTimesConfig \<Rightarrow> Modality \<Rightarrow> Complication list \<Rightarrow> int" where
  "specParTime cfg m cs =
     (if Bilateral \<in> set cs then 2 * specAdditive cfg m cs else specAdditive cfg m cs)"

section \<open>Invariants of the session\<close>

text \<open>
  A snapshot for the undo exists only after a completion that has been counted, and the
  streak, with the one the snapshot remembers, stays between 0 and 6.
\<close>

definition countInv :: "session \<Rightarrow> bool" where
  "countInv s \<longleftrightarrow>
     0 \<le> studiesCompleted s \<and> (lastStudy s \<noteq> None \<longrightarrow> 1 \<le> studiesCompleted s)"

definition streakInv :: "session \<Rightarrow> bool" where
  "streakInv s \<longleftrightarrow>
     0 \<le> currentStreak s \<and> currentStreak s \<le> 6 \<and>
     (\<forall>l. lastStudy s = Some l \<longrightarrow> 0 \<le> streakBefore l \<and> streakBefore l \<le> 6)"


section \<open>The specification's break policy and rolling value\<close>


text \<open>
  The rolling value in the words of the specification: the unit values of the records not
  older than 60 minutes at \<open>now\<close>, added up in the order of the log.
\<close>

definition withinTrailingHour :: "int \<Rightarrow> CompletedStudy \<Rightarrow> bool" where
  "withinTrailingHour now r \<longleftrightarrow> now - timestamp r \<le> 60 * 60 * 1000"

definition rollingUnitValue :: "int \<Rightarrow> CompletedStudy list \<Rightarrow> double" where
  "rollingUnitValue now rs = foldl jadd jzero (map studyRvu (filter (withinTrailingHour now) rs))"

text \<open>
  Between two studies, under the default RVU values and without auto-start: nothing is
  selected and the study timer is at rest.
\<close>

definition betweenStudies :: "session \<Rightarrow> bool" where
  "betweenStudies s \<longleftrightarrow>
     selectedModality s = None \<and> selectedComplications s = [] \<and> \<not> isRunning s \<and>
     currentTime s = 0 \<and> \<not> autoStartEnabled s \<and> rvuValues s = defaultRVUValues"

text \<open>A study of kind \<open>m\<close> without modifiers has been timed for one second.\<close>

definition studyTimed :: "Modality \<Rightarrow> session \<Rightarrow> bool" where
  "studyTimed m s \<longleftrightarrow>
     selectedModality s = Some m \<and> selectedComplications s = [] \<and> isRunning s \<and>
     currentTime s = 1 \<and> \<not> autoStartEnabled s \<and> rvuValues s = defaultRVUValues"

section \<open>Strings and the parsing of numbers\<close>

text \<open>
  Text is a list of code units below 256. \<^verbatim>\<open>trim\<close> and the two number parsers skip the
  white space of that range.
\<close>

definition isWhiteSpace :: "char \<Rightarrow> bool" where
  "isWhiteSpace c \<longleftrightarrow>
     c \<in> set [CHR 0x09, CHR 0x0A, CHR 0x0B, CHR 0x0C, CHR 0x0D, CHR 0x20, CHR 0xA0]"

definition trimStart :: "string \<Rightarrow> string" where
  "trimStart s = dropWhile isWhiteSpace s"

definition trim :: "string \<Rightarrow> string" where
  "trim s = rev (dropWhile isWhiteSpace (rev (dropWhile isWhiteSpace s)))"

text \<open>\<^verbatim>\<open>s.split(c)\<close> for a one-character separator.\<close>

fun split :: "char \<Rightarrow> string \<Rightarrow> string list" where
  "split c [] = [[]]"
| "split c (x # xs) =
     (if x = c then [] # split c xs
      else (case split c xs of [] \<Rightarrow> [[x]] | l # ls \<Rightarrow> (x # l) # ls))"

definition isDigit :: "char \<Rightarrow> bool" where
  "isDigit c \<longleftrightarrow> (48::nat) \<le> of_char c \<and> of_char c \<le> (57::nat)"

definition isHexDigit :: "char \<Rightarrow> bool" where
  "isHexDigit c \<longleftrightarrow>
     isDigit c \<or> ((65::nat) \<le> of_char c \<and> of_char c \<le> (70::nat)) \<or>
     ((97::nat) \<le> of_char c \<and> of_char c \<le> (102::nat))"

definition digitValue :: "char \<Rightarrow> nat" where
  "digitValue c =
     (if isDigit c then of_char c - 48
      else if (97::nat) \<le> of_char c then of_char c - 87 else of_char c - 55)"

definition digitsValue :: "nat \<Rightarrow> string \<Rightarrow> nat" where
  "digitsValue radix ds = foldl (\<lambda>a c. radix * a + digitValue c) 0 ds"

definition startsWithSign :: "string \<Rightarrow> bool" where
  "startsWithSign s \<longleftrightarrow> s \<noteq> [] \<and> (hd s = CHR ''-'' \<or> hd s = CHR ''+'')"

text \<open>
  \<^verbatim>\<open>parseInt(string)\<close> without a radix: leading white space, a sign, \<^verbatim>\<open>0x\<close> for radix 16,
  then the longest run of digits; \<open>None\<close> is \<^verbatim>\<open>NaN\<close>. The result is the double nearest to
  the number the digits spell (an engine may read the digits after the twentieth as 0; the
  model rounds the exact number).
\<close>

definition parseInt :: "string \<Rightarrow> double option" where
  "parseInt str =
    (let s = trimStart str;
         negative = (s \<noteq> [] \<and> hd s = CHR ''-'');
         s1 = (if startsWithSign s then tl s else s);
         hex = (take 2 s1 = ''0x'' \<or> take 2 s1 = ''0X'');
         s2 = (if hex then drop 2 s1 else s1);
         z = takeWhile (if hex then isHexDigit else isDigit) s2;
         mathInt = int (digitsValue (if hex then 16 else 10) z)
     in if z = [] then None
        else Some (ofInt (if negative then - mathInt else mathInt)))"

text \<open>
  \<^verbatim>\<open>parseFloat(string)\<close>: leading white space, a sign, digits with an optional fraction or
  a fraction alone, and an exponent if its digits are there; \<open>None\<close> is \<^verbatim>\<open>NaN\<close>. The
  literal \<^verbatim>\<open>Infinity\<close> is not a value of this model and reads as \<open>None\<close>.
\<close>

definition parseFloat :: "string \<Rightarrow> double option" where
  "parseFloat str =
    (let s = trimStart str;
         negative = (s \<noteq> [] \<and> hd s = CHR ''-'');
         s1 = (if startsWithSign s then tl s else s);
         intDigits = takeWhile isDigit s1;
         r1 = dropWhile isDigit s1;
         hasDot = (r1 \<noteq> [] \<and> hd r1 = CHR ''.'');
         fracDigits = (if hasDot then takeWhile isDigit (tl r1) else []);
         r2 = (if hasDot then dropWhile isDigit (tl r1) else r1);
         hasE = (r2 \<noteq> [] \<and> (hd r2 = CHR ''e'' \<or> hd r2 = CHR ''E''));
         r3 = (if hasE then tl r2 else []);
         expNegative = (r3 \<noteq> [] \<and> hd r3 = CHR ''-'');
         expDigits = takeWhile isDigit (if startsWithSign r3 then tl r3 else r3);
         exponent =
           (if expDigits = [] then 0
            else if expNegative then - int (digitsValue 10 expDigits)
            else int (digitsValue 10 expDigits));
         mantissa =
           of_nat (digitsValue 10 intDigits) +
           of_nat (digitsValue 10 fracDigits) / 10 ^ length fracDigits
     in if intDigits = [] \<and> fracDigits = [] then None
        else Some (toDouble ((if negative then - mantissa else mantissa) * 10 powi exponent)))"

text \<open>\<^verbatim>\<open>parseInt(value) || 0\<close> and \<^verbatim>\<open>parseFloat(value) || 0\<close>.\<close>

definition parseIntOr0 :: "string \<Rightarrow> double" where
  "parseIntOr0 v = (case parseInt v of None \<Rightarrow> jzero | Some n \<Rightarrow> n)"

definition parseFloatOr0 :: "string \<Rightarrow> double" where
  "parseFloatOr0 v = (case parseFloat v of None \<Rightarrow> jzero | Some x \<Rightarrow> x)"

section \<open>Editing the configuration\<close>

text \<open>
  An object keeps its keys in the order they were first written: \<open>AList.update\<close> replaces
  a value in place or appends the key. (Keys that spell an array index would be listed
  first by \<^verbatim>\<open>Object.entries\<close>; the keys here are names.)
\<close>

definition updateParTime :: "string \<Rightarrow> string \<Rightarrow> ParTimesConfig \<Rightarrow> ParTimesConfig" where
  "updateParTime key v prev = AList.update key (parseIntOr0 v) prev"

definition updateRVUValue ::
  "string \<Rightarrow> string \<Rightarrow> string option \<Rightarrow> RVUConfig \<Rightarrow> RVUConfig" where
  "updateRVUValue key v modality prev =
    (case modality of
       Some m \<Rightarrow>
         if m = [] then AList.update key (JNum (parseFloatOr0 v)) prev
         else AList.update key
                (JObj (AList.update m (JNum (parseFloatOr0 v))
                   (case map_of prev key of Some (JObj obj) \<Rightarrow> obj | _ \<Rightarrow> [])))
                prev
     | None \<Rightarrow> AList.update key (JNum (parseFloatOr0 v)) prev)"

section \<open>Import from CSV\<close>

text \<open>
  \<^verbatim>\<open>line.match(/(?:"([^"]*)"|([^,]*))/g)\<close>. The pattern matches at every position: a quoted
  run if the text there starts with a quote that is closed later, and otherwise the longest
  run without a comma, which may be empty. After a match the search goes on where the match
  ended, one character further if the match was empty, and it stops once it has passed the
  end of the text. So a separating comma yields an empty match of its own, and the end of
  the text another one. \<open>fieldMatch\<close> is the match at the start of a text with what follows
  it.
\<close>

definition quote :: char where
  "quote = CHR 0x22"

definition fieldMatch :: "string \<Rightarrow> string \<times> string" where
  "fieldMatch r =
    (if r \<noteq> [] \<and> hd r = quote \<and> quote \<in> set (tl r)
     then (quote # takeWhile (\<lambda>c. c \<noteq> quote) (tl r) @ [quote],
           tl (dropWhile (\<lambda>c. c \<noteq> quote) (tl r)))
     else (takeWhile (\<lambda>c. c \<noteq> CHR '','') r, dropWhile (\<lambda>c. c \<noteq> CHR '','') r))"

function matchAll :: "string \<Rightarrow> string list" where
  "matchAll r =
    (if r = [] then [[]]
     else if fst (fieldMatch r) = [] then [] # matchAll (tl r)
     else fst (fieldMatch r) # matchAll (snd (fieldMatch r)))"
  by pat_completeness auto
termination
proof (relation "measure length")
  show "wf (measure length)"
    by simp
next
  fix r :: string
  assume "r \<noteq> []"
  then show "(tl r, r) \<in> measure length"
    by (cases r) simp_all
next
  fix r :: string
  assume r: "r \<noteq> []" and m: "fst (fieldMatch r) \<noteq> []"
  show "(snd (fieldMatch r), r) \<in> measure length"
  proof (cases "hd r = quote \<and> quote \<in> set (tl r)")
    case True
    have "length (dropWhile (\<lambda>c. c \<noteq> quote) (tl r)) \<le> length (tl r)"
      by (rule length_dropWhile_le)
    moreover have "dropWhile (\<lambda>c. c \<noteq> quote) (tl r) \<noteq> []"
      using True by (simp add: dropWhile_eq_Nil_conv)
    ultimately have "length (tl (dropWhile (\<lambda>c. c \<noteq> quote) (tl r))) < length r"
      using r by (cases r) (auto simp: less_Suc_eq_le)
    then show ?thesis
      using True r by (simp add: fieldMatch_def)
  next
    case False
    then have f: "fieldMatch r =
        (takeWhile (\<lambda>c. c \<noteq> CHR '','') r, dropWhile (\<lambda>c. c \<noteq> CHR '','') r)"
      by (auto simp: fieldMatch_def)
    have "length (takeWhile (\<lambda>c. c \<noteq> CHR '','') r) + length (dropWhile (\<lambda>c. c \<noteq> CHR '','') r) =
        length r"
      by (metis length_append takeWhile_dropWhile_id)
    moreover have "0 < length (takeWhile (\<lambda>c. c \<noteq> CHR '','') r)"
      using m f by simp
    ultimately have "length (dropWhile (\<lambda>c. c \<noteq> CHR '','') r) < length r"
      by linarith
    then show ?thesis
      by (simp add: f)
  qed
qed

declare matchAll.simps [simp del]

text \<open>\<^verbatim>\<open>s.replace(/"/g, '').trim()\<close>.\<close>

definition unquote :: "string \<Rightarrow> string" where
  "unquote s = trim (filter (\<lambda>c. c \<noteq> quote) s)"

text \<open>\<^verbatim>\<open>!value\<close> of what a key of the RVU object holds.\<close>

fun falsy :: "jsval option \<Rightarrow> bool" where
  "falsy None = True"
| "falsy (Some (JNum x)) = (x = jzero)"
| "falsy (Some (JObj obj)) = False"
| "falsy (Some JNull) = True"
| "falsy (Some (JBool b)) = (\<not> b)"
| "falsy (Some (JStr s)) = (s = [])"

text \<open>The body of the loop of \<^verbatim>\<open>importSettings\<close> over the lines after the header.\<close>

definition importLine ::
  "ParTimesConfig \<times> RVUConfig \<Rightarrow> string \<Rightarrow> ParTimesConfig \<times> RVUConfig" where
  "importLine acc rawLine =
    (let newParTimes = fst acc; newRVUValues = snd acc; line = trim rawLine
     in if line = [] then acc
        else
          (let matches = matchAll line
           in if length matches < 3 then acc
              else
                (let settingType = unquote (matches ! 0);
                     key = unquote (matches ! 1);
                     v = unquote (matches ! 2);
                     modality =
                       (if 3 < length matches \<and> matches ! 3 \<noteq> [] then unquote (matches ! 3)
                        else [])
                 in if settingType = ''Par Time''
                    then (AList.update key (parseIntOr0 v) newParTimes, newRVUValues)
                    else if settingType = ''RVU''
                    then
                      (if modality \<noteq> []
                       then
                         (let withObject =
                                (if falsy (map_of newRVUValues key)
                                 then AList.update key (JObj []) newRVUValues
                                 else newRVUValues)
                          in case map_of withObject key of
                               Some (JObj obj) \<Rightarrow>
                                 (newParTimes,
                                  AList.update key
                                    (JObj (AList.update modality (JNum (parseFloatOr0 v)) obj))
                                    withObject)
                             | _ \<Rightarrow> (newParTimes, withObject))
                       else (newParTimes, AList.update key (JNum (parseFloatOr0 v)) newRVUValues))
                    else acc)))"

definition importSettings :: "string \<Rightarrow> ParTimesConfig \<times> RVUConfig" where
  "importSettings text =
     foldl importLine (defaultParTimes, defaultRVUValues) (drop 1 (split (CHR 0x0A) text))"

section \<open>Export to CSV\<close>

text \<open>
  A number in a template literal. A whole number is written in decimal digits. Another
  double is written with the fewest fraction digits whose nearest decimal reads back as
  the same double, which is what \<^verbatim>\<open>Number.prototype.toString\<close> gives for magnitudes from
  \<open>10^-6\<close> to below \<open>10^21\<close>; the exponent notation outside that range is not modelled.
\<close>

definition digitChar :: "nat \<Rightarrow> char" where
  "digitChar d = (if d < 10 then ''0123456789'' ! d else CHR ''?'')"

function showNat :: "nat \<Rightarrow> string" where
  "showNat n = (if n < 10 then [digitChar n] else showNat (n div 10) @ [digitChar (n mod 10)])"
  by pat_completeness auto
termination
  by (relation "measure id") auto

declare showNat.simps [simp del]

definition padZeros :: "nat \<Rightarrow> string \<Rightarrow> string" where
  "padZeros k s = replicate (k - length s) (CHR ''0'') @ s"

definition readsBack :: "rat \<Rightarrow> nat \<Rightarrow> bool" where
  "readsBack a d \<longleftrightarrow> fl (of_int (roundHalfEven (a * 10 ^ d)) / 10 ^ d) = a"

function shortestFraction :: "nat \<Rightarrow> nat \<Rightarrow> rat \<Rightarrow> nat" where
  "shortestFraction bound d a =
     (if readsBack a d \<or> bound \<le> d then d else shortestFraction bound (Suc d) a)"
  by pat_completeness auto
termination
  by (relation "measure (\<lambda>(bound, d, a). bound - d)") auto

declare shortestFraction.simps [simp del]

text \<open>
  The search for the digits stops at the latest at the number of binary fraction digits of
  the value, where the decimal is exact.
\<close>

definition numberToString :: "double \<Rightarrow> string" where
  "numberToString x =
    (let v = ratOf x; a = \<bar>v\<bar>; sign = (if v < 0 then ''-'' else [])
     in if a = of_int \<lfloor>a\<rfloor> then sign @ showNat (nat \<lfloor>a\<rfloor>)
        else
          (let d = shortestFraction (floorlog 2 (nat (snd (quotient_of a)))) 1 a;
               n = nat (roundHalfEven (a * 10 ^ d))
           in sign @ showNat (n div 10 ^ d) @ ''.'' @ padZeros d (showNat (n mod 10 ^ d))))"

text \<open>\<^verbatim>\<open>${value}\<close> for what an RVU entry may hold (an array would be joined; not modelled).\<close>

fun jsToString :: "jsval \<Rightarrow> string" where
  "jsToString (JNum x) = numberToString x"
| "jsToString (JObj obj) = ''[object Object]''"
| "jsToString JNull = ''null''"
| "jsToString (JBool b) = (if b then ''true'' else ''false'')"
| "jsToString (JStr s) = s"

definition csvHeader :: string where
  "csvHeader = ''Setting Type,Key,Value,Modality''"

definition parTimeRow :: "string \<times> double \<Rightarrow> string" where
  "parTimeRow kv =
     ''Par Time,'' @ [quote] @ fst kv @ [quote] @ '','' @ numberToString (snd kv) @ '',''"

definition rvuModalityRow :: "string \<Rightarrow> string \<times> jsval \<Rightarrow> string" where
  "rvuModalityRow key mr =
     ''RVU,'' @ [quote] @ key @ [quote] @ '','' @ jsToString (snd mr) @ '','' @
     [quote] @ fst mr @ [quote]"

text \<open>
  The rows of one RVU entry. \<^verbatim>\<open>typeof null\<close> is \<^verbatim>\<open>'object'\<close> too, and
  \<^verbatim>\<open>Object.entries(null)\<close> throws: the export then ends in its \<^verbatim>\<open>catch\<close>, without a file.
\<close>

definition rvuRows :: "string \<times> jsval \<Rightarrow> string list option" where
  "rvuRows kv =
    (case snd kv of
       JObj obj \<Rightarrow> Some (map (rvuModalityRow (fst kv)) obj)
     | JNull \<Rightarrow> None
     | v \<Rightarrow> Some [''RVU,'' @ [quote] @ fst kv @ [quote] @ '','' @ jsToString v @ '',''])"

fun allRvuRows :: "RVUConfig \<Rightarrow> string list option" where
  "allRvuRows [] = Some []"
| "allRvuRows (kv # rest) =
     (case rvuRows kv of
        None \<Rightarrow> None
      | Some rows \<Rightarrow> (case allRvuRows rest of None \<Rightarrow> None | Some others \<Rightarrow> Some (rows @ others)))"

fun join :: "char \<Rightarrow> string list \<Rightarrow> string" where
  "join sep [] = []"
| "join sep [x] = x"
| "join sep (x # y # ys) = x @ sep # join sep (y # ys)"

definition exportSettings :: "ParTimesConfig \<Rightarrow> RVUConfig \<Rightarrow> string option" where
  "exportSettings p r =
    (case allRvuRows r of
       None \<Rightarrow> None
     | Some rows \<Rightarrow> Some (join (CHR 0x0A) (csvHeader # map parTimeRow p @ rows)))"

section \<open>Rounding to double precision\<close>

lemma ilog2_raw_bounds:
  assumes "0 < x"
  defines "d \<equiv> int (floorlog 2 (nat (fst (quotient_of x)))) - int (floorlog 2 (nat (snd (quotient_of x))))"
  shows "2 powi (d - 1) \<le> x" and "x < 2 powi (d + 1)"
proof -
  obtain p q where pq: "quotient_of x = (p, q)" by (cases "quotient_of x")
  have q: "0 < q" using pq quotient_of_denom_pos by blast
  have x: "x = of_int p / of_int q" using pq quotient_of_div by blast
  have p: "0 < p" using assms(1) q x by (simp add: zero_less_divide_iff)
  define P Q where "P = nat p" and "Q = nat q"
  have P: "0 < P" "of_int p = (of_nat P :: rat)" using p by (simp_all add: P_def)
  have Q: "0 < Q" "of_int q = (of_nat Q :: rat)" using q by (simp_all add: Q_def)
  define a b where "a = floorlog 2 P" and "b = floorlog 2 Q"
  have a: "2 ^ (a - 1) \<le> P" "P < 2 ^ a" "0 < a"
    using floorlog_bounds [of P 2] P(1) floorlog_eq_zero_iff [of 2 P] by (auto simp: a_def)
  have b: "2 ^ (b - 1) \<le> Q" "Q < 2 ^ b" "0 < b"
    using floorlog_bounds [of Q 2] Q(1) floorlog_eq_zero_iff [of 2 Q] by (auto simp: b_def)
  have d: "d = int a - int b" by (simp add: d_def pq a_def b_def P_def Q_def)
  have ra: "(2::rat) ^ (a - 1) \<le> of_nat P" "(of_nat P :: rat) < 2 ^ a"
    using a(1,2) by (metis of_nat_le_iff of_nat_numeral of_nat_power, metis of_nat_less_iff of_nat_numeral of_nat_power)
  have rb: "(2::rat) ^ (b - 1) \<le> of_nat Q" "(of_nat Q :: rat) < 2 ^ b"
    using b(1,2) by (metis of_nat_le_iff of_nat_numeral of_nat_power, metis of_nat_less_iff of_nat_numeral of_nat_power)
  have Qpos: "(0::rat) < of_nat Q" using Q(1) by simp
  have e1: "(2::rat) powi (d - 1) = 2 ^ (a - 1) / 2 ^ b"
  proof -
    have "d - 1 = int (a - 1) - int b" using a(3) d by simp
    then show ?thesis by (simp add: power_int_diff)
  qed
  have e2: "(2::rat) powi (d + 1) = 2 ^ a / 2 ^ (b - 1)"
  proof -
    have "d + 1 = int a - int (b - 1)" using b(3) d by simp
    then show ?thesis by (simp add: power_int_diff)
  qed
  have "(2::rat) ^ (a - 1) / 2 ^ b \<le> of_nat P / of_nat Q"
    using ra(1) rb(2) Qpos by (intro frac_le) (auto simp: less_imp_le)
  then show "2 powi (d - 1) \<le> x" by (simp add: e1 x P(2) Q(2))
  have "of_nat P / of_nat Q < (2::rat) ^ a / 2 ^ (b - 1)"
    using ra(2) rb(1) Qpos by (intro frac_less) (auto)
  then show "x < 2 powi (d + 1)" by (simp add: e2 x P(2) Q(2))
qed

lemma ilog2_bounds:
  assumes "0 < x"
  shows "2 powi ilog2 x \<le> x" and "x < 2 powi (ilog2 x + 1)"
  using ilog2_raw_bounds [OF assms] by (auto simp: ilog2_def Let_def not_le)

lemma ilog2_unique:
  assumes "2 powi k \<le> x" and "x < 2 powi (k + 1)"
  shows "ilog2 x = k"
proof -
  have x: "0 < x" using assms(1) by (rule less_le_trans [rotated]) simp
  note b = ilog2_bounds [OF x]
  have "\<not> ilog2 x < k"
  proof
    assume "ilog2 x < k"
    then have "(2::rat) powi (ilog2 x + 1) \<le> 2 powi k" by (intro power_int_increasing) auto
    with b(2) assms(1) show False by simp
  qed
  moreover have "\<not> k < ilog2 x"
  proof
    assume "k < ilog2 x"
    then have "(2::rat) powi (k + 1) \<le> 2 powi ilog2 x" by (intro power_int_increasing) auto
    with b(1) assms(2) show False by simp
  qed
  ultimately show ?thesis by simp
qed

lemma roundHalfEven_of_int [simp]: "roundHalfEven (of_int n) = n"
  by (simp add: roundHalfEven_def)

lemma roundHalfEven_numeral [simp]: "roundHalfEven (numeral n) = numeral n"
  using roundHalfEven_of_int [of "numeral n"] by simp

lemma roundHalfEven_mono: "a \<le> b \<Longrightarrow> roundHalfEven a \<le> roundHalfEven b"
proof -
  assume ab: "a \<le> b"
  have fl: "\<lfloor>a\<rfloor> \<le> \<lfloor>b\<rfloor>" using ab by (rule floor_mono)
  have ua: "roundHalfEven a \<le> \<lfloor>a\<rfloor> + 1" and lb: "\<lfloor>b\<rfloor> \<le> roundHalfEven b"
    by (auto simp: roundHalfEven_def Let_def)
  show ?thesis
  proof (cases "\<lfloor>a\<rfloor> < \<lfloor>b\<rfloor>")
    case True
    with ua lb show ?thesis by linarith
  next
    case False
    with fl have eq: "\<lfloor>a\<rfloor> = \<lfloor>b\<rfloor>" by simp
    then show ?thesis using ab by (auto simp: roundHalfEven_def Let_def)
  qed
qed

lemma fl_zero [simp]: "fl 0 = 0"
  by (simp add: fl_def)

lemma fl_minus: "fl (- x) = - fl x"
  by (simp add: fl_def Let_def)

lemma fl_pos:
  "0 < x \<Longrightarrow> fl x = of_int (roundHalfEven (x / 2 powi (ilog2 x - 52))) * 2 powi (ilog2 x - 52)"
  by (simp add: fl_def Let_def)

lemma fl_binade:
  assumes "2 powi k \<le> x" and "x < 2 powi (k + 1)"
  shows "fl x = of_int (roundHalfEven (x / 2 powi (k - 52))) * 2 powi (k - 52)"
proof -
  have "0 < x" using assms(1) by (rule less_le_trans [rotated]) simp
  then show ?thesis by (simp add: fl_pos ilog2_unique [OF assms])
qed

lemma significand_bounds:
  assumes "2 powi k \<le> x" and "x < 2 powi (k + 1)"
  shows "2 ^ 52 \<le> roundHalfEven (x / 2 powi (k - 52))"
    and "roundHalfEven (x / 2 powi (k - 52)) \<le> 2 ^ 53"
proof -
  have u: "(0::rat) < 2 powi (k - 52)" by simp
  have "(2::rat) powi k / 2 powi (k - 52) = 2 powi 52"
    by (simp add: power_int_diff)
  then have lo: "of_int (2 ^ 52) \<le> x / 2 powi (k - 52)"
    using assms(1) u by (simp add: pos_le_divide_eq power_int_diff)
  have "(2::rat) powi (k + 1) / 2 powi (k - 52) = 2 powi 53"
    by (simp add: power_int_diff power_int_add)
  then have hi: "x / 2 powi (k - 52) \<le> of_int (2 ^ 53)"
    using assms(2) u by (simp add: pos_divide_le_eq power_int_diff power_int_add)
  from roundHalfEven_mono [OF lo] show "2 ^ 52 \<le> roundHalfEven (x / 2 powi (k - 52))"
    by simp
  from roundHalfEven_mono [OF hi] show "roundHalfEven (x / 2 powi (k - 52)) \<le> 2 ^ 53"
    by simp
qed

lemma fl_binade_bounds:
  assumes "2 powi k \<le> x" and "x < 2 powi (k + 1)"
  shows "2 powi k \<le> fl x" and "fl x \<le> 2 powi (k + 1)"
proof -
  note s = significand_bounds [OF assms]
  have e1: "(2::rat) powi k = of_int (2 ^ 52) * 2 powi (k - 52)"
    by (simp add: power_int_diff)
  have e2: "(2::rat) powi (k + 1) = of_int (2 ^ 53) * 2 powi (k - 52)"
    by (simp add: power_int_diff power_int_add)
  have "of_int (2 ^ 52) * (2::rat) powi (k - 52)
          \<le> of_int (roundHalfEven (x / 2 powi (k - 52))) * 2 powi (k - 52)"
    using s(1) by (intro mult_right_mono) (simp_all only: of_int_le_iff zero_le_power_int zero_le_numeral)
  then show "2 powi k \<le> fl x"
    by (simp only: e1 fl_binade [OF assms])
  have "of_int (roundHalfEven (x / 2 powi (k - 52))) * (2::rat) powi (k - 52)
          \<le> of_int (2 ^ 53) * 2 powi (k - 52)"
    using s(2) by (intro mult_right_mono) (simp_all only: of_int_le_iff zero_le_power_int zero_le_numeral)
  then show "fl x \<le> 2 powi (k + 1)"
    by (simp only: e2 fl_binade [OF assms])
qed

lemma fl_pos_pos: "0 < x \<Longrightarrow> 0 < fl x"
  using fl_binade_bounds(1) [OF ilog2_bounds, of x]
  by (rule_tac less_le_trans [of _ "2 powi ilog2 x"]) simp_all

lemma fl_mono_pos:
  assumes "0 < x" and "x \<le> y"
  shows "fl x \<le> fl y"
proof -
  have y: "0 < y" using assms by simp
  note bx = ilog2_bounds [OF assms(1)] and bY = ilog2_bounds [OF y]
  have "\<not> ilog2 y < ilog2 x"
  proof
    assume "ilog2 y < ilog2 x"
    then have "(2::rat) powi (ilog2 y + 1) \<le> 2 powi ilog2 x"
      by (intro power_int_increasing) auto
    with bx(1) bY(2) assms(2) show False by simp
  qed
  then consider "ilog2 x = ilog2 y" | "ilog2 x < ilog2 y" by linarith
  then show ?thesis
  proof cases
    case 1
    have "x / 2 powi (ilog2 y - 52) \<le> y / 2 powi (ilog2 y - 52)"
      using assms(2) by (simp add: divide_right_mono)
    from roundHalfEven_mono [OF this] show ?thesis
      by (simp add: fl_pos assms(1) y 1 mult_right_mono)
  next
    case 2
    then have "(2::rat) powi (ilog2 x + 1) \<le> 2 powi ilog2 y"
      by (intro power_int_increasing) auto
    with fl_binade_bounds(2) [OF bx] fl_binade_bounds(1) [OF bY] show ?thesis
      by simp
  qed
qed

lemma fl_mono: "x \<le> y \<Longrightarrow> fl x \<le> fl y"
proof -
  assume xy: "x \<le> y"
  consider "0 < x" | "x = 0" | "x < 0" "0 \<le> y" | "x < 0" "y < 0" by linarith
  then show ?thesis
  proof cases
    case 1
    then show ?thesis using xy by (rule fl_mono_pos)
  next
    case 2
    then show ?thesis using xy fl_pos_pos [of y] by (cases "y = 0") auto
  next
    case 3
    have "fl x < 0" using fl_pos_pos [of "- x"] 3(1) by (simp add: fl_minus)
    moreover have "0 \<le> fl y" using fl_pos_pos [of y] 3(2) by (cases "y = 0") auto
    ultimately show ?thesis by simp
  next
    case 4
    have "fl (- y) \<le> fl (- x)" using 4 xy by (intro fl_mono_pos) auto
    then show ?thesis by (simp add: fl_minus)
  qed
qed

lemma fl_significand:
  assumes "2 ^ 52 \<le> m" and "m \<le> 2 ^ 53"
  shows "fl (of_int m * 2 powi k) = of_int m * 2 powi k"
proof (cases "m = 2 ^ 53")
  case True
  have v: "of_int m * (2::rat) powi k = 2 powi (k + 53)"
    by (simp add: True power_int_add)
  have "fl (2 powi (k + 53)) = of_int (roundHalfEven (2 powi (k + 53) / 2 powi (k + 53 - 52))) * 2 powi (k + 53 - 52)"
    by (rule fl_binade) (simp_all add: power_int_add)
  also have "(2::rat) powi (k + 53) / 2 powi (k + 53 - 52) = of_int (2 ^ 52)"
    by (simp add: power_int_diff power_int_add)
  finally show ?thesis
    by (simp only: v roundHalfEven_of_int) (simp add: power_int_diff power_int_add)
next
  case False
  with assms have m: "2 ^ 52 \<le> m" "m < 2 ^ 53" by auto
  have lo: "(2::rat) powi (k + 52) \<le> of_int m * 2 powi k"
  proof -
    have "of_int (2 ^ 52) * (2::rat) powi k \<le> of_int m * 2 powi k"
      using m(1) by (intro mult_right_mono) (simp_all only: of_int_le_iff zero_le_power_int zero_le_numeral)
    then show ?thesis by (simp add: power_int_add mult.commute)
  qed
  have hi: "of_int m * (2::rat) powi k < 2 powi (k + 52 + 1)"
  proof -
    have "of_int m * (2::rat) powi k < of_int (2 ^ 53) * 2 powi k"
      using m(2) by (intro mult_strict_right_mono) (simp_all only: of_int_less_iff zero_less_power_int zero_less_numeral)
    then show ?thesis by (simp add: power_int_add mult.commute)
  qed
  have "of_int m * (2::rat) powi k / 2 powi (k + 52 - 52) = of_int m"
    by simp
  with fl_binade [OF lo hi] show ?thesis by simp
qed

lemma fl_idem [simp]: "fl (fl x) = fl x"
proof -
  have pos: "fl (fl x) = fl x" if "0 < x" for x
    using fl_significand [OF significand_bounds [OF ilog2_bounds [OF that]]] that
    by (simp add: fl_pos [OF that])
  consider "0 < x" | "x = 0" | "x < 0" by linarith
  then show ?thesis
  proof cases
    case 3
    then have "fl (fl (- x)) = fl (- x)" by (intro pos) simp
    then show ?thesis by (simp add: fl_minus)
  qed (simp_all add: pos)
qed


lemma fl_of_nat:
  assumes "n < 2 ^ 53"
  shows "fl (of_nat n) = of_nat n"
proof (cases "n = 0")
  case True
  then show ?thesis by simp
next
  case False
  define b where "b = floorlog 2 n"
  have b: "2 ^ (b - 1) \<le> n" "n < 2 ^ b" "0 < b"
    using floorlog_bounds [of n 2] False floorlog_eq_zero_iff [of 2 n] by (auto simp: b_def)
  have b53: "b \<le> 53"
    unfolding b_def using assms by (intro floorlog_leI) auto
  define j where "j = 53 - b"
  have lo: "(2::int) ^ 52 \<le> int n * 2 ^ j"
  proof -
    have "(2::nat) ^ 52 = 2 ^ (b - 1) * 2 ^ j"
      using b(3) b53 by (simp add: j_def flip: power_add)
    also have "\<dots> \<le> n * 2 ^ j"
      using b(1) by simp
    finally have "(2::nat) ^ 52 \<le> n * 2 ^ j" .
    then have "int (2 ^ 52) \<le> int (n * 2 ^ j)"
      by (simp only: of_nat_le_iff)
    then show ?thesis by simp
  qed
  have hi: "int n * 2 ^ j \<le> 2 ^ 53"
  proof -
    have "n * 2 ^ j \<le> 2 ^ b * 2 ^ j"
      using b(2) by simp
    also have "\<dots> = (2::nat) ^ 53"
      using b53 by (simp add: j_def flip: power_add)
    finally have "int (n * 2 ^ j) \<le> int (2 ^ 53)"
      by (simp only: of_nat_le_iff)
    then show ?thesis by simp
  qed
  have e: "of_int (int n * 2 ^ j) * (2::rat) powi (- int j) = of_nat n"
    by (simp add: power_int_minus field_simps)
  have "fl (of_int (int n * 2 ^ j) * 2 powi (- int j)) = of_int (int n * 2 ^ j) * 2 powi (- int j)"
    by (rule fl_significand [OF lo hi])
  then show ?thesis
    unfolding e .
qed

lemma fl_of_int:
  assumes "\<bar>i\<bar> < 2 ^ 53"
  shows "fl (of_int i) = of_int i"
proof (cases "0 \<le> i")
  case True
  then have "nat i < 2 ^ 53" using assms by (simp add: nat_less_iff)
  from fl_of_nat [OF this] True show ?thesis by simp
next
  case False
  then have "nat (- i) < 2 ^ 53" using assms by (simp add: nat_less_iff)
  from fl_of_nat [OF this] False have "fl (of_int (- i)) = of_int (- i)" by simp
  then show ?thesis by (simp add: fl_minus)
qed

lemma fl_numeral: "numeral k < (2::int) ^ 53 \<Longrightarrow> fl (numeral k) = numeral k"
  using fl_of_int [of "numeral k"] by simp

lemma ratOf_toDouble [simp]: "ratOf (toDouble x) = fl x"
  by transfer simp

lemma fl_ratOf [simp]: "fl (ratOf a) = ratOf a"
  by transfer auto

lemma toDouble_ratOf [simp]: "toDouble (ratOf a) = a"
  by transfer auto

lemma ratOf_jadd: "ratOf (jadd a b) = fl (ratOf a + ratOf b)"
  by transfer simp

lemma ratOf_jsub: "ratOf (jsub a b) = fl (ratOf a - ratOf b)"
  by transfer simp

lemma ratOf_jdiv: "ratOf (jdiv a b) = fl (ratOf a / ratOf b)"
  by transfer simp

lemma ratOf_jzero [simp]: "ratOf jzero = 0"
  by (simp add: jzero_def)

lemma ratOf_ofInt: "ratOf (ofInt n) = fl (of_int n)"
  by (simp add: ofInt_def)

lemma double_eq_iff: "a = b \<longleftrightarrow> ratOf a = ratOf b"
  by (simp add: ratOf_inject)

lemma jadd_zero_right [simp]: "jadd a jzero = a"
  by (simp add: double_eq_iff ratOf_jadd)

lemma jadd_zero_left [simp]: "jadd jzero a = a"
  by (simp add: double_eq_iff ratOf_jadd)

lemma ratOf_jmul: "ratOf (jmul a b) = fl (ratOf a * ratOf b)"
  by transfer simp

lemma fl_nonneg: "0 \<le> x \<Longrightarrow> 0 \<le> fl x"
  using fl_mono [of 0 x] by simp

lemma fl_le_zero_iff: "fl x \<le> 0 \<longleftrightarrow> x \<le> 0"
  using fl_mono [of x 0] fl_pos_pos [of x] by (auto simp: not_le [symmetric])

lemma fl_double: "fl (2 * x) = 2 * fl x"
proof -
  have pos: "fl (2 * x) = 2 * fl x" if x: "0 < x" for x
  proof -
    note b = ilog2_bounds [OF x]
    have lo: "2 powi (ilog2 x + 1) \<le> 2 * x"
      using b(1) by (simp add: power_int_add)
    have hi: "2 * x < 2 powi (ilog2 x + 1 + 1)"
      using b(2) by (simp add: power_int_add)
    have e: "2 * x / 2 powi (ilog2 x + 1 - 52) = x / 2 powi (ilog2 x - 52)"
      by (simp add: power_int_add power_int_diff)
    show ?thesis
      unfolding fl_binade [OF lo hi] e fl_pos [OF x]
      by (simp add: power_int_add power_int_diff)
  qed
  consider "0 < x" | "x = 0" | "x < 0" by linarith
  then show ?thesis
  proof cases
    case 3
    then have "fl (2 * (- x)) = 2 * fl (- x)" by (intro pos) simp
    then show ?thesis by (simp add: fl_minus)
  qed (simp_all add: pos)
qed

lemma fl_Ints_pos:
  assumes "0 < n"
  shows "fl (of_int n) \<in> \<int>"
proof (cases "n < 2 ^ 53")
  case True
  then have "fl (of_int n) = of_int n" using assms by (intro fl_of_int) simp
  then show ?thesis by simp
next
  case False
  define x :: rat where "x = of_int n"
  have "(2::int) ^ 53 \<le> n" using False by simp
  then have "of_int ((2::int) ^ 53) \<le> (of_int n :: rat)" by (simp only: of_int_le_iff)
  then have x: "0 < x" "2 ^ 53 \<le> x"
    using assms by (simp_all add: x_def)
  note b = ilog2_bounds [OF x(1)]
  have "\<not> ilog2 x + 1 \<le> 53"
  proof
    assume "ilog2 x + 1 \<le> 53"
    then have "(2::rat) powi (ilog2 x + 1) \<le> 2 powi 53" by (intro power_int_increasing) auto
    with b(2) x(2) show False by simp
  qed
  then have k: "0 \<le> ilog2 x - 52" by simp
  have "(2::rat) powi (ilog2 x - 52) = of_int (2 ^ nat (ilog2 x - 52))"
    using k by (simp add: power_int_def)
  then have "fl x = of_int (roundHalfEven (x / 2 powi (ilog2 x - 52)) * 2 ^ nat (ilog2 x - 52))"
    by (simp add: fl_pos [OF x(1)])
  then show ?thesis
    unfolding x_def by (simp only: Ints_of_int)
qed

lemma fl_Ints: "x \<in> \<int> \<Longrightarrow> fl x \<in> \<int>"
proof (elim Ints_cases)
  fix n :: int
  assume x: "x = of_int n"
  consider "0 < n" | "n = 0" | "n < 0" by linarith
  then show ?thesis
  proof cases
    case 1
    then show ?thesis by (simp add: x fl_Ints_pos)
  next
    case 2
    then show ?thesis by (simp add: x)
  next
    case 3
    then have "fl (of_int (- n)) \<in> \<int>" by (intro fl_Ints_pos) simp
    then show ?thesis by (simp add: x fl_minus)
  qed
qed
section \<open>Values of the rounding\<close>

lemma roundHalfEven_nearest:
  assumes "of_int n - 1/2 < y" and "y < of_int n + 1/2"
  shows "roundHalfEven y = n"
proof -
  have "\<lfloor>y\<rfloor> = n \<or> \<lfloor>y\<rfloor> = n - 1"
    using assms by (simp add: floor_eq_iff) linarith
  then show ?thesis
  proof
    assume f: "\<lfloor>y\<rfloor> = n"
    then show ?thesis using assms by (simp add: roundHalfEven_def Let_def)
  next
    assume f: "\<lfloor>y\<rfloor> = n - 1"
    then show ?thesis using assms by (simp add: roundHalfEven_def Let_def)
  qed
qed

lemma fl_nearest:
  assumes "2 powi k \<le> x" and "x < 2 powi (k + 1)"
    and "of_int n - 1/2 < x / 2 powi (k - 52)" and "x / 2 powi (k - 52) < of_int n + 1/2"
  shows "fl x = of_int n * 2 powi (k - 52)"
  by (simp add: fl_binade [OF assms(1,2)] roundHalfEven_nearest [OF assms(3,4)])

lemma fl_numeral_values:
  "fl 1 = 1" "fl 2 = 2" "fl 60 = 60" "fl 120 = 120" "fl 3599 = 3599" "fl 3600 = 3600"
  "fl 7199 = 7199" "fl 7200 = 7200"
  using fl_significand [of "2 ^ 52" "-52"] fl_significand [of "2 ^ 52" "-51"]
    fl_significand [of "60 * 2 ^ 47" "-47"] fl_significand [of "120 * 2 ^ 46" "-46"]
    fl_significand [of "3599 * 2 ^ 41" "-41"] fl_significand [of "3600 * 2 ^ 41" "-41"]
    fl_significand [of "7199 * 2 ^ 40" "-40"] fl_significand [of "7200 * 2 ^ 40" "-40"]
  by simp_all

lemma fl_half: "fl (1/2) = 1/2"
  using fl_significand [of "2 ^ 52" "-53"] by simp

lemma fl_3_2: "fl (3/2) = 3/2"
  using fl_significand [of "3 * 2 ^ 51" "-52"] by simp

lemma fl_1_5: "fl (1/5) = 3602879701896397 / 18014398509481984"
  using fl_nearest [of "-3" "1/5" 7205759403792794] by simp

lemma fl_1_5_fixed:
  "fl (3602879701896397 / 18014398509481984) = 3602879701896397 / 18014398509481984"
  using fl_idem [of "1/5"] by (simp only: fl_1_5)

lemma fl_1_5_plus_1:
  "fl (21617278211378381 / 18014398509481984) = 5404319552844595 / 4503599627370496"
  using fl_nearest [of 0 "21617278211378381 / 18014398509481984" 5404319552844595] by simp

lemma fl_1_5_plus_1_minus_1:
  "fl (900719925474099 / 4503599627370496) = 900719925474099 / 4503599627370496"
  using fl_significand [of 7205759403792792 "-55"] by simp



lemmas double_eval =
  double_eq_iff ratOf_jadd ratOf_jsub ratOf_jdiv ratOf_ofInt fl_numeral_values fl_half fl_3_2
  fl_1_5 fl_1_5_fixed fl_1_5_plus_1 fl_1_5_plus_1_minus_1

lemma fl_2_5: "fl (2/5) = 3602879701896397 / 9007199254740992"
  using fl_nearest [of "-2" "2/5" 7205759403792794] by simp

lemma fl_13_10: "fl (13/10) = 5854679515581645 / 4503599627370496"
  using fl_nearest [of 0 "13/10" 5854679515581645] by simp

lemma fl_3_5: "fl (3/5) = 5404319552844595 / 9007199254740992"
  using fl_nearest [of "-1" "3/5" 5404319552844595] by simp

lemma fl_12_5: "fl (12/5) = 5404319552844595 / 2251799813685248"
  using fl_nearest [of 1 "12/5" 5404319552844595] by simp

lemma roundHalfEven_tie:
  assumes "y = of_int n + 1/2" and "even n"
  shows "roundHalfEven y = n"
proof -
  have "\<lfloor>y\<rfloor> = n" using assms(1) by (simp add: floor_eq_iff)
  then show ?thesis using assms by (simp add: roundHalfEven_def Let_def)
qed

lemma fl_2_53: "fl 9007199254740992 = 9007199254740992"
  using fl_significand [of "2 ^ 53" 0] by simp

lemma fl_2_53_plus_1: "fl 9007199254740993 = 9007199254740992"
proof -
  have "fl 9007199254740993 =
      of_int (roundHalfEven (9007199254740993 / 2 powi (53 - 52))) * 2 powi (53 - 52)"
    by (rule fl_binade) simp_all
  moreover have "roundHalfEven (9007199254740993 / 2) = 4503599627370496"
    by (rule roundHalfEven_tie) simp_all
  ultimately show ?thesis by simp
qed

lemma fl_2_60: "fl 1152921504606846976 = 1152921504606846976"
  using fl_significand [of "2 ^ 53" 7] by simp

lemma fl_2_60_minus_1: "fl 1152921504606846975 = 1152921504606846976"
  using fl_nearest [of 59 1152921504606846975 "2 ^ 53"] by simp

lemma fl_2_60_plus_89: "fl 1152921504606847065 = 1152921504606846976"
  using fl_nearest [of 60 1152921504606847065 "2 ^ 52"] by simp
section \<open>Evaluating the text functions\<close>

lemmas text_eval =
  matchAll.simps fieldMatch_def quote_def unquote_def trim_def trimStart_def isWhiteSpace_def
  isDigit_def isHexDigit_def digitValue_def digitsValue_def startsWithSign_def

section \<open>Properties of the par time\<close>

lemma foldl_parTimeStep:
  "foldl (parTimeStep cfg) (t, b) cs =
     (foldl jadd t (map (\<lambda>c. parTimeOr0 cfg (complicationKey c))
                     (filter (\<lambda>c. c \<noteq> Bilateral) cs)),
      b \<or> Bilateral \<in> set cs)"
  by (induction cs arbitrary: t b) (auto simp: parTimeStep_def)

lemma calculateParTime_Some:
  "calculateParTime cfg (Some m) cs =
     (let additive = foldl jadd (parTimeOr0 cfg (modalityKey m))
                       (map (\<lambda>c. parTimeOr0 cfg (complicationKey c))
                          (filter (\<lambda>c. c \<noteq> Bilateral) cs))
      in if Bilateral \<in> set cs then jmul additive (toDouble 2) else additive)"
  by (simp add: calculateParTime_def foldl_parTimeStep Let_def)

lemma jmul_two: "ratOf (jmul t (toDouble 2)) = 2 * ratOf t"
proof -
  have "fl (ratOf t * 2) = fl (2 * ratOf t)" by (simp add: mult.commute)
  then show ?thesis by (simp add: ratOf_jmul fl_numeral_values fl_double)
qed

lemma foldl_jadd_nonneg:
  "0 \<le> ratOf t \<Longrightarrow> (\<forall>v\<in>set vs. 0 \<le> ratOf v) \<Longrightarrow> 0 \<le> ratOf (foldl jadd t vs)"
  by (induction vs arbitrary: t) (simp_all add: ratOf_jadd fl_nonneg)

lemma foldl_jadd_Ints:
  "ratOf t \<in> \<int> \<Longrightarrow> (\<forall>v\<in>set vs. ratOf v \<in> \<int>) \<Longrightarrow> ratOf (foldl jadd t vs) \<in> \<int>"
  by (induction vs arbitrary: t) (simp_all add: ratOf_jadd fl_Ints)

lemma foldl_jadd_exact:
  assumes "ratOf t = of_int a" and "0 \<le> a" and "\<forall>v\<in>set vs. wholeSeconds v"
    and "a + (\<Sum>v\<leftarrow>vs. \<lfloor>ratOf v\<rfloor>) < 2 ^ 53"
  shows "ratOf (foldl jadd t vs) = of_int (a + (\<Sum>v\<leftarrow>vs. \<lfloor>ratOf v\<rfloor>))"
  using assms
proof (induction vs arbitrary: t a)
  case Nil
  then show ?case by simp
next
  case (Cons v vs)
  define b where "b = \<lfloor>ratOf v\<rfloor>"
  have v: "ratOf v = of_int b" "0 \<le> b"
    using Cons.prems(3) by (simp_all add: wholeSeconds_def b_def)
  have rest: "0 \<le> (\<Sum>w\<leftarrow>vs. \<lfloor>ratOf w\<rfloor>)"
    using Cons.prems(3) by (intro sum_list_nonneg) (auto simp: wholeSeconds_def)
  have small: "\<bar>a + b\<bar> < 2 ^ 53"
    using Cons.prems(2,4) v(2) rest by (simp add: b_def)
  have "ratOf (jadd t v) = fl (of_int (a + b))"
    by (simp add: ratOf_jadd Cons.prems(1) v(1))
  then have step: "ratOf (jadd t v) = of_int (a + b)"
    by (simp only: fl_of_int [OF small])
  have "ratOf (foldl jadd (jadd t v) vs) = of_int (a + b + (\<Sum>w\<leftarrow>vs. \<lfloor>ratOf w\<rfloor>))"
    using Cons.prems(2,3,4) v(2) by (intro Cons.IH [OF step]) (simp_all add: b_def add.assoc)
  then show ?case by (simp add: b_def add.assoc)
qed

lemma parTimeOr0_cases:
  assumes "\<forall>k v. map_of cfg k = Some v \<longrightarrow> P v" and "P jzero"
  shows "P (parTimeOr0 cfg k)"
  using assms by (simp add: parTimeOr0_def split: option.splits)

lemma calculateParTime_exact:
  assumes whole: "\<forall>k v. map_of cfg k = Some v \<longrightarrow> wholeSeconds v"
    and small: "specAdditive cfg m cs < 2 ^ 53"
  shows "ratOf (calculateParTime cfg (Some m) cs) = of_int (specParTime cfg m cs)"
proof -
  have w: "wholeSeconds (parTimeOr0 cfg k)" for k
    by (rule parTimeOr0_cases [OF whole]) (simp add: wholeSeconds_def)
  define vs where
    "vs = map (\<lambda>c. parTimeOr0 cfg (complicationKey c)) (filter (\<lambda>c. c \<noteq> Bilateral) cs)"
  have s: "(\<Sum>v\<leftarrow>vs. \<lfloor>ratOf v\<rfloor>) =
      (\<Sum>c\<leftarrow>filter (\<lambda>c. c \<noteq> Bilateral) cs. targetSeconds cfg (complicationKey c))"
    by (simp add: vs_def targetSeconds_def comp_def)
  have "ratOf (foldl jadd (parTimeOr0 cfg (modalityKey m)) vs) =
      of_int (targetSeconds cfg (modalityKey m) + (\<Sum>v\<leftarrow>vs. \<lfloor>ratOf v\<rfloor>))"
  proof (rule foldl_jadd_exact)
    show "ratOf (parTimeOr0 cfg (modalityKey m)) = of_int (targetSeconds cfg (modalityKey m))"
      using w [of "modalityKey m"] by (simp add: wholeSeconds_def targetSeconds_def)
    show "0 \<le> targetSeconds cfg (modalityKey m)"
      using w [of "modalityKey m"] by (simp add: wholeSeconds_def targetSeconds_def)
    show "\<forall>v\<in>set vs. wholeSeconds v"
      by (auto simp: vs_def w)
    show "targetSeconds cfg (modalityKey m) + (\<Sum>v\<leftarrow>vs. \<lfloor>ratOf v\<rfloor>) < 2 ^ 53"
      using small by (simp add: s specAdditive_def)
  qed
  then have "ratOf (foldl jadd (parTimeOr0 cfg (modalityKey m)) vs) =
      of_int (specAdditive cfg m cs)"
    by (simp add: s specAdditive_def)
  then show ?thesis
    by (simp add: calculateParTime_Some Let_def jmul_two specParTime_def flip: vs_def)
qed

lemma calculateParTime_nonneg:
  assumes "\<forall>k v. map_of cfg k = Some v \<longrightarrow> 0 \<le> ratOf v"
  shows "0 \<le> ratOf (calculateParTime cfg sel cs)"
proof (cases sel)
  case None
  then show ?thesis by (simp add: calculateParTime_def)
next
  case (Some m)
  have w: "0 \<le> ratOf (parTimeOr0 cfg k)" for k
    by (rule parTimeOr0_cases [OF assms]) simp
  have "0 \<le> ratOf (foldl jadd (parTimeOr0 cfg (modalityKey m))
      (map (\<lambda>c. parTimeOr0 cfg (complicationKey c)) (filter (\<lambda>c. c \<noteq> Bilateral) cs)))"
    by (rule foldl_jadd_nonneg) (auto simp: w)
  then show ?thesis
    by (simp add: Some calculateParTime_Some Let_def jmul_two)
qed

lemma calculateParTime_Ints:
  assumes "\<forall>k v. map_of cfg k = Some v \<longrightarrow> ratOf v \<in> \<int>"
  shows "ratOf (calculateParTime cfg sel cs) \<in> \<int>"
proof (cases sel)
  case None
  then show ?thesis by (simp add: calculateParTime_def)
next
  case (Some m)
  have w: "ratOf (parTimeOr0 cfg k) \<in> \<int>" for k
    by (rule parTimeOr0_cases [OF assms]) simp
  have "ratOf (foldl jadd (parTimeOr0 cfg (modalityKey m))
      (map (\<lambda>c. parTimeOr0 cfg (complicationKey c)) (filter (\<lambda>c. c \<noteq> Bilateral) cs))) \<in> \<int>"
    by (rule foldl_jadd_Ints) (auto simp: w)
  then show ?thesis
    by (simp add: Some calculateParTime_Some Let_def jmul_two)
qed

lemma parTime_values:
  "fl 90 = 90" "fl 180 = 180" "fl 240 = 240" "fl 300 = 300" "fl 360 = 360" "fl 600 = 600"
  "fl 720 = 720" "fl 5 = 5" "fl 89 = 89"
  by (simp_all add: fl_numeral)

lemmas parTime_eval =
  calculateParTime_def parTimeStep_def parTimeOr0_def defaultParTimes_def updateParTime_def
  parseIntOr0_def parseInt_def ofInt_def Let_def

text \<open>
  Claim C2 as stated, for every configuration, fails on two points. Nothing keeps a
  negative entry out of the configuration: \<^verbatim>\<open>updateParTime\<close> stores whatever \<^verbatim>\<open>parseInt\<close>
  reads from the settings dialog, and the par time of a kind configured with -5 seconds
  is -5. And the entries are added as doubles: with 9007199254740992 seconds for CT and 1
  second for +1 Section, the par time of CT with +1 Section is 9007199254740992, one less
  than the sum of the two entries.
\<close>

theorem calculateParTime_not_spec:
  "updateParTime ''CT'' ''-5'' defaultParTimes =
     AList.update ''CT'' (toDouble (- 5)) defaultParTimes \<and>
   ratOf (calculateParTime (updateParTime ''CT'' ''-5'' defaultParTimes) (Some CT) []) = - 5 \<and>
   ratOf (calculateParTime (updateParTime ''CT'' ''-5'' defaultParTimes) (Some CT) []) < 0 \<and>
   ratOf (parTimeOr0
     (updateParTime ''+1 Section'' ''1''
        (updateParTime ''CT'' ''9007199254740992'' defaultParTimes)) ''CT'') =
     9007199254740992 \<and>
   ratOf (parTimeOr0
     (updateParTime ''+1 Section'' ''1''
        (updateParTime ''CT'' ''9007199254740992'' defaultParTimes)) ''+1 Section'') = 1 \<and>
   ratOf (calculateParTime
     (updateParTime ''+1 Section'' ''1''
        (updateParTime ''CT'' ''9007199254740992'' defaultParTimes)) (Some CT) [Plus1Section]) =
     9007199254740992 \<and>
   specParTime
     (updateParTime ''+1 Section'' ''1''
        (updateParTime ''CT'' ''9007199254740992'' defaultParTimes)) CT [Plus1Section] =
     9007199254740993"
proof -
  have neg: "updateParTime ''CT'' ''-5'' defaultParTimes =
      AList.update ''CT'' (toDouble (- 5)) defaultParTimes"
    by (simp add: parTime_eval text_eval)
  have negv: "ratOf (calculateParTime (updateParTime ''CT'' ''-5'' defaultParTimes) (Some CT) []) =
      - 5"
    unfolding neg by (simp add: parTime_eval fl_minus parTime_values)
  have big: "updateParTime ''+1 Section'' ''1''
        (updateParTime ''CT'' ''9007199254740992'' defaultParTimes) =
      AList.update ''+1 Section'' (toDouble 1)
        (AList.update ''CT'' (toDouble 9007199254740992) defaultParTimes)"
    by (simp add: parTime_eval text_eval)
  have ct: "ratOf (parTimeOr0 (AList.update ''+1 Section'' (toDouble 1)
        (AList.update ''CT'' (toDouble 9007199254740992) defaultParTimes)) ''CT'') =
      9007199254740992"
    by (simp add: parTime_eval fl_2_53)
  have sec: "ratOf (parTimeOr0 (AList.update ''+1 Section'' (toDouble 1)
        (AList.update ''CT'' (toDouble 9007199254740992) defaultParTimes)) ''+1 Section'') = 1"
    by (simp add: parTime_eval fl_numeral_values)
  have bigv: "ratOf (calculateParTime (AList.update ''+1 Section'' (toDouble 1)
        (AList.update ''CT'' (toDouble 9007199254740992) defaultParTimes))
        (Some CT) [Plus1Section]) = 9007199254740992"
    by (simp add: parTime_eval ratOf_jadd fl_2_53 fl_numeral_values fl_2_53_plus_1)
  have spec: "specParTime (AList.update ''+1 Section'' (toDouble 1)
        (AList.update ''CT'' (toDouble 9007199254740992) defaultParTimes)) CT [Plus1Section] =
      9007199254740993"
    by (simp add: specParTime_def specAdditive_def targetSeconds_def parTime_eval fl_2_53
          fl_numeral_values)
  from neg negv ct sec bigv spec show ?thesis
    unfolding big by simp
qed

text \<open>
  Claim C2, amended. The target duration is 0 without a selected kind. With a kind it is the
  kind's entry plus, one after the other, the entries of all selected modifiers other than
  Bilateral (a missing entry counting 0), added in double-precision arithmetic, and twice
  that total when Bilateral is selected; the doubling is exact, also when the total is 0,
  as long as the double of the total is finite. Over a configuration of non-negative whole
  seconds, as the data model has them, whose sum for the selection is below \<open>2^53\<close>, no
  addition rounds and the result is the specification's sum. The result is non-negative
  whenever the entries are, and it is a whole number whenever the entries are non-negative
  whole numbers and the result is finite. CT with +1 Section and Bilateral under the
  default configuration gives (240 + 120) * 2 = 720.
\<close>

theorem calculateParTime_spec:
  "calculateParTime cfg None cs = jzero \<and>
   calculateParTime cfg (Some m) cs =
     (let additive = foldl jadd (parTimeOr0 cfg (modalityKey m))
                       (map (\<lambda>c. parTimeOr0 cfg (complicationKey c))
                          (filter (\<lambda>c. c \<noteq> Bilateral) cs))
      in if Bilateral \<in> set cs then jmul additive (toDouble 2) else additive) \<and>
   (\<bar>ratOf t\<bar> * 2 \<le> maxDouble \<longrightarrow> ratOf (jmul t (toDouble 2)) = 2 * ratOf t) \<and>
   ((\<forall>k v. map_of cfg k = Some v \<longrightarrow> wholeSeconds v) \<and> specAdditive cfg m cs < 2 ^ 53 \<longrightarrow>
      ratOf (calculateParTime cfg (Some m) cs) = of_int (specParTime cfg m cs)) \<and>
   ((\<forall>k v. map_of cfg k = Some v \<longrightarrow> 0 \<le> ratOf v) \<longrightarrow>
      0 \<le> ratOf (calculateParTime cfg sel cs)) \<and>
   ((\<forall>k v. map_of cfg k = Some v \<longrightarrow> wholeSeconds v) \<and>
    ratOf (calculateParTime cfg sel cs) \<le> maxDouble \<longrightarrow>
      ratOf (calculateParTime cfg sel cs) \<in> \<int>) \<and>
   (map_of cfg k = None \<longrightarrow> parTimeOr0 cfg k = jzero) \<and>
   calculateParTime defaultParTimes (Some CT) [Plus1Section, Bilateral] = toDouble 720"
proof -
  have none: "calculateParTime cfg None cs = jzero"
    by (simp add: calculateParTime_def)
  have missing: "map_of cfg k = None \<longrightarrow> parTimeOr0 cfg k = jzero"
    by (simp add: parTimeOr0_def)
  have scenario:
    "calculateParTime defaultParTimes (Some CT) [Plus1Section, Bilateral] = toDouble 720"
    by (simp add: parTime_eval double_eq_iff ratOf_jadd ratOf_jmul parTime_values
          fl_numeral_values)
  have whole: "ratOf (calculateParTime cfg sel cs) \<in> \<int>"
    if "\<forall>k v. map_of cfg k = Some v \<longrightarrow> wholeSeconds v"
  proof (rule calculateParTime_Ints, intro allI impI)
    fix k v
    assume "map_of cfg k = Some v"
    with that have "ratOf v = of_int \<lfloor>ratOf v\<rfloor>" by (simp add: wholeSeconds_def)
    then show "ratOf v \<in> \<int>" by (rule ssubst) (rule Ints_of_int)
  qed
  from none calculateParTime_Some [of cfg m cs] jmul_two [of t]
    calculateParTime_exact [of cfg m cs] calculateParTime_nonneg [of cfg sel cs]
    whole missing scenario
  show ?thesis
    by blast
qed

theorem calculateParTime_spec_witness:
  "map_of defaultParTimes ''Unlisted'' = None \<and>
   parTimeOr0 defaultParTimes ''Unlisted'' = jzero \<and>
   specParTime defaultParTimes US [Plus1Section, Bilateral, Vascular] = 720 \<and>
   ratOf (calculateParTime defaultParTimes (Some US) [Plus1Section, Bilateral, Vascular]) = 720 \<and>
   0 \<le> ratOf (calculateParTime defaultParTimes (Some US) [Plus1Section, Bilateral, Vascular]) \<and>
   ratOf (calculateParTime defaultParTimes (Some US) [Plus1Section, Bilateral, Vascular]) \<in> \<int> \<and>
   ratOf (jmul (toDouble 360) (toDouble 2)) = 720"
proof -
  have entries: "map_of defaultParTimes k = Some v \<Longrightarrow>
      ratOf v \<in> {0, 90, 120, 180, 240, 600}" for k v
    by (auto simp: defaultParTimes_def parTime_values fl_numeral_values split: if_splits)
  have whole: "\<forall>k v. map_of defaultParTimes k = Some v \<longrightarrow> wholeSeconds v"
    using entries by (fastforce simp: wholeSeconds_def)
  have nonneg: "\<forall>k v. map_of defaultParTimes k = Some v \<longrightarrow> 0 \<le> ratOf v"
    using entries by fastforce
  have twice: "\<bar>ratOf (toDouble 360)\<bar> * 2 \<le> maxDouble"
    by (simp add: parTime_values maxDouble_def)
  have n: "map_of defaultParTimes ''Unlisted'' = None"
    by (simp add: defaultParTimes_def)
  have v: "specAdditive defaultParTimes US [Plus1Section, Bilateral, Vascular] = 360"
    "specParTime defaultParTimes US [Plus1Section, Bilateral, Vascular] = 720"
    by (simp_all add: specParTime_def specAdditive_def targetSeconds_def parTimeOr0_def
          defaultParTimes_def parTime_values fl_numeral_values)
  have small: "specAdditive defaultParTimes US [Plus1Section, Bilateral, Vascular] < 2 ^ 53"
    by (simp add: v(1))
  note spec = calculateParTime_spec
         [of defaultParTimes "[Plus1Section, Bilateral, Vascular]" US "toDouble 360" "Some US"
            "''Unlisted''"]
  have a: "parTimeOr0 defaultParTimes ''Unlisted'' = jzero"
    using spec n by blast
  have b: "ratOf (calculateParTime defaultParTimes (Some US) [Plus1Section, Bilateral, Vascular]) =
      of_int (specParTime defaultParTimes US [Plus1Section, Bilateral, Vascular])"
    using spec whole small by blast
  have c: "0 \<le> ratOf (calculateParTime defaultParTimes (Some US)
      [Plus1Section, Bilateral, Vascular])"
    using spec nonneg by blast
  have finite: "ratOf (calculateParTime defaultParTimes (Some US)
      [Plus1Section, Bilateral, Vascular]) \<le> maxDouble"
    by (simp add: b v(2) maxDouble_def)
  have d: "ratOf (calculateParTime defaultParTimes (Some US)
      [Plus1Section, Bilateral, Vascular]) \<in> \<int>"
    using spec whole finite by blast
  have f: "ratOf (jmul (toDouble 360) (toDouble 2)) = 2 * ratOf (toDouble 360)"
    using spec twice by blast
  from n a b c d f v(2) show ?thesis
    by (simp add: parTime_values)
qed
section \<open>Sequences of events: invariants and interruptions\<close>

lemmas handler_defs =
  selectModality_def toggleComplication_def toggleTimerSettled_def toggleTimer_def
  schedulesInterstitialStop_def interstitialStop_def completeStudy_def undoLastStudy_def
  toggleAdminTime_def toggleCommsTime_def toggleBreakTime_def toggleDoubleTap_def
  toggleAutoStart_def toggleDraft_def resumeInterstitial_def acceptBreak_def declineBreak_def
  closeAnimalMessage_def tick_def

lemma run_Nil: "run s [] = s"
  by (simp add: run_def)

lemma run_Cons: "run s (e # es) = run (step s e) es"
  by (simp add: run_def)

lemma run_append: "run s (es @ fs) = run (run s es) fs"
  by (simp add: run_def)

lemmas session_eval =
  run_Nil run_Cons step_def autoStartEffect_def handler_defs initialSession_def Let_def

text \<open>
  Claim C1 asks that after any sequence of transitions from the initial state at most one of
  Working, Interstitial, Admin, Comms, OnBreak and QuickReview is active. The handlers do
  not keep it. Starting a break leaves a running study running; starting a double tap
  leaves Admin time running; stopping Admin time over an auto-paused study starts both the
  study and the interstitial time. Each of the three sequences ends with two active
  categories.
\<close>

theorem mutual_exclusion_broken:
  "isRunning (run initialSession [SelectModality CT, ClickParTime, ClickBreak]) \<and>
   isBreakTimeRunning (run initialSession [SelectModality CT, ClickParTime, ClickBreak]) \<and>
   activeCategories (run initialSession [SelectModality CT, ClickParTime, ClickBreak]) = 2 \<and>
   isAdminTimeRunning (run initialSession [ClickAdminTime, ClickDoubleTap]) \<and>
   isDoubleTapRunning (run initialSession [ClickAdminTime, ClickDoubleTap]) \<and>
   activeCategories (run initialSession [ClickAdminTime, ClickDoubleTap]) = 2 \<and>
   isRunning
     (run initialSession [SelectModality CT, ClickParTime, ClickAdminTime, ClickAdminTime]) \<and>
   isInterstitialRunning
     (run initialSession [SelectModality CT, ClickParTime, ClickAdminTime, ClickAdminTime]) \<and>
   activeCategories
     (run initialSession [SelectModality CT, ClickParTime, ClickAdminTime, ClickAdminTime]) = 2"
  by (simp add: session_eval activeCategories_def)

lemma toggleTimerSettled_frame:
  "studiesCompleted (toggleTimerSettled s) = studiesCompleted s"
  "lastStudy (toggleTimerSettled s) = lastStudy s"
  "currentStreak (toggleTimerSettled s) = currentStreak s"
  by (simp_all add: toggleTimerSettled_def toggleTimer_def interstitialStop_def Let_def)

lemma autoStartEffect_frame:
  "studiesCompleted (autoStartEffect b s) = studiesCompleted s"
  "lastStudy (autoStartEffect b s) = lastStudy s"
  "currentStreak (autoStartEffect b s) = currentStreak s"
  by (simp_all add: autoStartEffect_def toggleTimerSettled_frame)

lemma handle_countInv: "countInv s \<Longrightarrow> countInv (handle e s)"
  by (cases e) (auto simp: countInv_def handler_defs Let_def split: option.splits)

lemma step_countInv: "countInv s \<Longrightarrow> countInv (step s e)"
  using handle_countInv [of s e] by (simp add: step_def countInv_def autoStartEffect_frame)

lemma run_countInv: "countInv s \<Longrightarrow> countInv (run s es)"
  by (induction es arbitrary: s) (simp_all add: run_Nil run_Cons step_countInv)

lemma countInv_initial: "countInv initialSession"
  by (simp add: countInv_def initialSession_def)

text \<open>
  Claim C10. The number of completed studies is never negative after any sequence of
  events from the initial state. Only the undo lowers it, and only with a snapshot, which
  it consumes; a new snapshot comes only from a completion, which raises the count by one.
\<close>

theorem studiesCompleted_never_negative:
  "0 \<le> studiesCompleted (run initialSession es) \<and>
   (studiesCompleted (step s e) < studiesCompleted s \<longrightarrow>
      e = ClickUndo \<and> lastStudy s \<noteq> None \<and> lastStudy (step s e) = None) \<and>
   (lastStudy (step s e) \<noteq> None \<and> lastStudy (step s e) \<noteq> lastStudy s \<longrightarrow>
      (\<exists>now. e = ClickElapsedTime now) \<and> studiesCompleted (step s e) = studiesCompleted s + 1)"
proof -
  have inv: "0 \<le> studiesCompleted (run initialSession es)"
    using run_countInv [OF countInv_initial, of es] by (simp add: countInv_def)
  have dec: "studiesCompleted (step s e) < studiesCompleted s \<longrightarrow>
      e = ClickUndo \<and> lastStudy s \<noteq> None \<and> lastStudy (step s e) = None"
    by (cases e)
       (auto simp: step_def autoStartEffect_frame handler_defs Let_def split: option.splits if_splits)
  have snap: "lastStudy (step s e) \<noteq> None \<and> lastStudy (step s e) \<noteq> lastStudy s \<longrightarrow>
      (\<exists>now. e = ClickElapsedTime now) \<and> studiesCompleted (step s e) = studiesCompleted s + 1"
    by (cases e)
       (auto simp: step_def autoStartEffect_frame handler_defs Let_def split: option.splits if_splits)
  from inv dec snap show ?thesis by blast
qed

theorem studiesCompleted_never_negative_witness:
  "studiesCompleted
     (run initialSession [SelectModality CT, ClickParTime, Tick, ClickElapsedTime 0]) = 1 \<and>
   studiesCompleted
     (step (run initialSession [SelectModality CT, ClickParTime, Tick, ClickElapsedTime 0])
        ClickUndo) = 0 \<and>
   lastStudy
     (run initialSession [SelectModality CT, ClickParTime, Tick, ClickElapsedTime 0]) \<noteq> None \<and>
   lastStudy
     (step (run initialSession [SelectModality CT, ClickParTime, Tick, ClickElapsedTime 0])
        ClickUndo) = None \<and>
   studiesCompleted
     (step (run initialSession [SelectModality CT, ClickParTime, Tick]) (ClickElapsedTime 0)) =
   studiesCompleted (run initialSession [SelectModality CT, ClickParTime, Tick]) + 1"
proof -
  define t where "t = run initialSession [SelectModality CT, ClickParTime, Tick]"
  define s where "s = run initialSession [SelectModality CT, ClickParTime, Tick, ClickElapsedTime 0]"
  have c1: "studiesCompleted s = 1"
    by (simp add: s_def session_eval)
  have c0: "studiesCompleted (step s ClickUndo) = 0"
    by (simp add: s_def session_eval)
  have undo: "lastStudy s \<noteq> None \<and> lastStudy (step s ClickUndo) = None"
    using studiesCompleted_never_negative [of "[]" s ClickUndo] c0 c1 by simp
  have t0: "lastStudy t = None" "lastStudy (step t (ClickElapsedTime 0)) \<noteq> None"
    by (simp_all add: t_def session_eval)
  have "studiesCompleted (step t (ClickElapsedTime 0)) = studiesCompleted t + 1"
    using studiesCompleted_never_negative [of "[]" t "ClickElapsedTime 0"] t0 by simp
  with c1 c0 undo show ?thesis
    unfolding s_def t_def by blast
qed

lemma handle_streakInv: "streakInv s \<Longrightarrow> streakInv (handle e s)"
  by (cases e) (auto simp: streakInv_def handler_defs Let_def split: option.splits)

lemma step_streakInv: "streakInv s \<Longrightarrow> streakInv (step s e)"
  using handle_streakInv [of s e] by (simp add: step_def streakInv_def autoStartEffect_frame)

lemma run_streakInv: "streakInv s \<Longrightarrow> streakInv (run s es)"
  by (induction es arbitrary: s) (simp_all add: run_Nil run_Cons step_streakInv)

lemma streakInv_initial: "streakInv initialSession"
  by (simp add: streakInv_def initialSession_def)

lemma studyVariance_sign:
  "ratOf (studyVariance s) \<le> 0 \<longleftrightarrow>
     ratOf (ofInt (currentTime s)) - ratOf (currentParTime s) \<le> 0"
  by (simp add: studyVariance_def ratOf_jsub fl_le_zero_iff)

lemma studyVariance_sign_exact:
  "\<bar>currentTime s\<bar> < 2 ^ 53 \<Longrightarrow>
     ratOf (studyVariance s) \<le> 0 \<longleftrightarrow> of_int (currentTime s) - ratOf (currentParTime s) \<le> 0"
  by (simp add: studyVariance_sign ratOf_ofInt fl_of_int)

text \<open>
  Claim C4. After every sequence of events from the initial state the streak lies between
  0 and 6. A completion sets it to the previous streak plus one, capped at 6, exactly when
  the variance, elapsed seconds minus par time, is at most 0, and to 0 otherwise. The
  variance is the difference as the program computes it, rounded to a double; the
  rounding keeps the sign, so the variance is at most 0 exactly when the elapsed seconds
  minus the par time, in exact arithmetic, are at most 0.
\<close>

theorem currentStreak_range:
  "0 \<le> currentStreak (run initialSession es) \<and> currentStreak (run initialSession es) \<le> 6 \<and>
   (completes s \<longrightarrow>
      currentStreak (completeStudy now s) =
        (if ratOf (studyVariance s) \<le> 0 then min (currentStreak s + 1) 6 else 0)) \<and>
   (ratOf (studyVariance s) \<le> 0 \<longleftrightarrow>
      ratOf (ofInt (currentTime s)) - ratOf (currentParTime s) \<le> 0) \<and>
   (\<bar>currentTime s\<bar> < 2 ^ 53 \<longrightarrow>
      (ratOf (studyVariance s) \<le> 0 \<longleftrightarrow>
         of_int (currentTime s) - ratOf (currentParTime s) \<le> 0))"
proof -
  have "streakInv (run initialSession es)"
    by (rule run_streakInv [OF streakInv_initial])
  then have range: "0 \<le> currentStreak (run initialSession es)"
    "currentStreak (run initialSession es) \<le> 6"
    by (simp_all add: streakInv_def)
  have update: "completes s \<longrightarrow>
      currentStreak (completeStudy now s) =
        (if ratOf (studyVariance s) \<le> 0 then min (currentStreak s + 1) 6 else 0)"
    by (simp add: completes_def completeStudy_def Let_def jle_def)
  from range update studyVariance_sign [of s] studyVariance_sign_exact [of s]
  show ?thesis
    by blast
qed

theorem currentStreak_range_witness:
  "completes (run initialSession [SelectModality CT, ClickParTime, Tick]) \<and>
   \<bar>currentTime (run initialSession [SelectModality CT, ClickParTime, Tick])\<bar> < 2 ^ 53 \<and>
   currentParTime (run initialSession [SelectModality CT, ClickParTime, Tick]) = toDouble 240 \<and>
   ratOf (studyVariance (run initialSession [SelectModality CT, ClickParTime, Tick])) \<le> 0 \<and>
   currentStreak (completeStudy 0 (run initialSession [SelectModality CT, ClickParTime, Tick])) = 1"
proof -
  define s where "s = run initialSession [SelectModality CT, ClickParTime, Tick]"
  have c: "completes s"
    by (simp add: s_def completes_def session_eval)
  have v: "currentTime s = 1" "currentStreak s = 0" "currentParTime s = toDouble 240"
    by (simp_all add: s_def session_eval currentParTime_def calculateParTime_def
          parTimeOr0_def defaultParTimes_def)
  have small: "\<bar>currentTime s\<bar> < 2 ^ 53"
    by (simp add: v(1))
  have exact: "of_int (currentTime s) - ratOf (currentParTime s) \<le> 0"
    by (simp add: v fl_numeral)
  note range = currentStreak_range [of "[]" s 0]
  have sign: "ratOf (studyVariance s) \<le> 0"
    using range small exact by blast
  have "currentStreak (completeStudy 0 s) =
      (if ratOf (studyVariance s) \<le> 0 then min (currentStreak s + 1) 6 else 0)"
    using range c by blast
  then have "currentStreak (completeStudy 0 s) = 1"
    by (simp add: sign v(2))
  with c small v(3) sign show ?thesis
    unfolding s_def by blast
qed





section \<open>Properties of the RVU valuation\<close>

lemma rvuStep_modifierUnitValue:
  "rvuStep cfg m a c = jadd a (modifierUnitValue cfg m c)"
  by (simp add: rvuStep_def modifierUnitValue_def split: option.splits jsval.splits)

lemma foldl_rvuStep:
  "foldl (rvuStep cfg m) a cs = foldl jadd a (map (modifierUnitValue cfg m) cs)"
  by (induction cs arbitrary: a) (simp_all add: rvuStep_modifierUnitValue)

lemma foldl_jadd_skip_zero:
  "f b = jzero \<Longrightarrow>
     foldl jadd a (map f (filter (\<lambda>c. c \<noteq> b) cs)) = foldl jadd a (map f cs)"
  by (induction cs arbitrary: a) simp_all

text \<open>
  Claim C7 as stated, that the Bilateral flag never changes the unit value under any
  configuration, fails: \<^verbatim>\<open>calculateRVU\<close> treats Bilateral like every other complication,
  and a configuration with a unit value for the key \<^verbatim>\<open>Bilateral\<close>, here written by
  \<^verbatim>\<open>updateRVUValue\<close>, adds it.
\<close>

theorem calculateRVU_bilateral_entry:
  "calculateRVU (updateRVUValue ''Bilateral'' ''0.5'' None defaultRVUValues)
     (Some CT) [Bilateral] = toDouble (3/2) \<and>
   calculateRVU (updateRVUValue ''Bilateral'' ''0.5'' None defaultRVUValues)
     (Some CT) [] = toDouble 1 \<and>
   calculateRVU (updateRVUValue ''Bilateral'' ''0.5'' None defaultRVUValues)
     (Some CT) [Bilateral] \<noteq>
   calculateRVU (updateRVUValue ''Bilateral'' ''0.5'' None defaultRVUValues)
     (Some CT) []"
  by (simp add: updateRVUValue_def parseFloatOr0_def parseFloat_def text_eval Let_def
        calculateRVU_def rvuStep_def defaultRVUValues_def double_eval)

text \<open>
  Claim C7, amended. The unit value is 0 without a selected kind. With a kind it is the
  kind's value (0 if missing or not a number) plus, for each selected modifier in turn, its
  entry for the kind from a per-kind object, its plain number, or 0 when it is absent or
  not a number. There is no multiplier: Bilateral counts like any other modifier, and it
  leaves the result unchanged whenever it has no numeric entry, as in the default
  configuration. The function is total: no configuration makes it fail.
\<close>

theorem calculateRVU_spec:
  "calculateRVU cfg None cs = jzero \<and>
   calculateRVU cfg (Some m) cs =
     foldl jadd (kindUnitValue cfg m) (map (modifierUnitValue cfg m) cs) \<and>
   (map_of cfg (complicationKey c) = None \<longrightarrow> modifierUnitValue cfg m c = jzero) \<and>
   (modifierUnitValue cfg m Bilateral = jzero \<longrightarrow>
      calculateRVU cfg (Some m) (filter (\<lambda>c. c \<noteq> Bilateral) cs) = calculateRVU cfg (Some m) cs)"
proof -
  have some: "calculateRVU cfg (Some m) xs =
     foldl jadd (kindUnitValue cfg m) (map (modifierUnitValue cfg m) xs)" for xs
    by (simp add: calculateRVU_def kindUnitValue_def foldl_rvuStep)
  have "modifierUnitValue cfg m Bilateral = jzero \<longrightarrow>
      calculateRVU cfg (Some m) (filter (\<lambda>c. c \<noteq> Bilateral) cs) = calculateRVU cfg (Some m) cs"
    by (simp add: some foldl_jadd_skip_zero)
  moreover have "map_of cfg (complicationKey c) = None \<longrightarrow> modifierUnitValue cfg m c = jzero"
    by (simp add: modifierUnitValue_def)
  moreover have "calculateRVU cfg None cs = jzero"
    by (simp add: calculateRVU_def)
  ultimately show ?thesis
    using some by blast
qed

theorem calculateRVU_spec_witness:
  "map_of defaultRVUValues (complicationKey Bilateral) = None \<and>
   modifierUnitValue defaultRVUValues CT Bilateral = jzero \<and>
   calculateRVU defaultRVUValues (Some CT) [Plus1Section] =
     calculateRVU defaultRVUValues (Some CT) [Bilateral, Plus1Section] \<and>
   calculateRVU defaultRVUValues (Some CT) [Bilateral, Plus1Section] = toDouble (3/2)"
proof -
  have n: "map_of defaultRVUValues (complicationKey Bilateral) = None"
    by (simp add: defaultRVUValues_def)
  have v: "calculateRVU defaultRVUValues (Some CT) [Bilateral, Plus1Section] = toDouble (3/2)"
    by (simp add: calculateRVU_def rvuStep_def defaultRVUValues_def double_eval)
  from calculateRVU_spec [of defaultRVUValues "[Bilateral, Plus1Section]" CT Bilateral] n v
  show ?thesis by simp
qed

section \<open>Properties of the break policy\<close>








section \<open>The rolling value and the undo\<close>

lemma betweenStudies_initial: "betweenStudies initialSession"
  by (simp add: betweenStudies_def initialSession_def)

lemma start_study:
  assumes "betweenStudies s"
  shows "studyTimed m (run s [SelectModality m, ClickParTime, Tick])"
    and "totalRVU (run s [SelectModality m, ClickParTime, Tick]) = totalRVU s"
    and "completedStudies (run s [SelectModality m, ClickParTime, Tick]) = completedStudies s"
    and "cumulativeVariance (run s [SelectModality m, ClickParTime, Tick]) = cumulativeVariance s"
    and "parTimes (run s [SelectModality m, ClickParTime, Tick]) = parTimes s"
  using assms by (simp_all add: betweenStudies_def studyTimed_def session_eval)

lemma studyTimed_completes: "studyTimed m s \<Longrightarrow> completes s"
  by (simp add: studyTimed_def completes_def)

lemma studyTimed_rvu:
  "studyTimed XR s \<Longrightarrow> currentStudyRVU s = toDouble (1/5)"
  "studyTimed CT s \<Longrightarrow> currentStudyRVU s = toDouble 1"
  by (simp_all add: studyTimed_def currentStudyRVU_def calculateRVU_def defaultRVUValues_def)

lemma finish_study:
  assumes "studyTimed m s"
  shows "betweenStudies (run s [ClickElapsedTime now])"
    and "totalRVU (run s [ClickElapsedTime now]) = jadd (totalRVU s) (currentStudyRVU s)"
    and "completedStudies (run s [ClickElapsedTime now]) =
           completedStudies s @ [\<lparr>timestamp = now, studyRvu = currentStudyRVU s\<rparr>]"
    and "cumulativeVariance (run s [ClickElapsedTime now]) =
           jadd (cumulativeVariance s) (studyVariance s)"
    and "parTimes (run s [ClickElapsedTime now]) = parTimes s"
  using assms by (simp_all add: betweenStudies_def studyTimed_def session_eval)

lemma studyTimed_variance:
  "studyTimed m s \<Longrightarrow>
     studyVariance s = jsub (toDouble 1) (parTimeOr0 (parTimes s) (modalityKey m))"
  by (simp add: studyTimed_def studyVariance_def currentParTime_def calculateParTime_def
        ofInt_def)

lemma set_parTimes:
  assumes "betweenStudies s"
  shows "betweenStudies (run s [SetParTimes p])"
    and "parTimes (run s [SetParTimes p]) = p"
    and "cumulativeVariance (run s [SetParTimes p]) = cumulativeVariance s"
  using assms by (simp_all add: betweenStudies_def session_eval)

lemma foldl_jadd_studyRvu:
  "foldl (\<lambda>sum study. jadd sum (studyRvu study)) a rs = foldl jadd a (map studyRvu rs)"
  by (induction rs arbitrary: a) simp_all

lemma sixtyMinutesAgo_filter:
  "filter (\<lambda>study. now - 3600000 \<le> timestamp study) rs = filter (withinTrailingHour now) rs"
  by (rule filter_cong) (auto simp: withinTrailingHour_def)

lemma completeStudy_log:
  "completes s \<Longrightarrow>
     completedStudies (completeStudy now s) =
       completedStudies s @ [\<lparr>timestamp = now, studyRvu = currentStudyRVU s\<rparr>]"
  by (simp add: completes_def completeStudy_def Let_def)

lemma completeStudy_rolling:
  "completes s \<Longrightarrow>
     rollingRVU (completeStudy now s) =
       rollingUnitValue now (completedStudies s @ [\<lparr>timestamp = now, studyRvu = currentStudyRVU s\<rparr>])"
  by (auto simp: completes_def completeStudy_def Let_def rollingUnitValue_def
        foldl_jadd_studyRvu sixtyMinutesAgo_filter simp del: filter_append)

lemma step_ClickElapsedTime: "step s (ClickElapsedTime now) = completeStudy now s"
  by (simp add: step_def autoStartEffect_def completeStudy_def Let_def)

text \<open>
  Claim C6. A completion appends its record to the log and sets the rolling value to the
  sum, in JavaScript addition along the log, of the unit values of exactly the records not
  older than 60 minutes at the time of the completion. Three CT studies of unit value 1.0
  completed at minutes 0, 30 and 70 give the rolling value 2.0 at minute 70.
\<close>

theorem rollingRVU_trailing_hour:
  "(completes s \<longrightarrow>
      completedStudies (completeStudy now s) =
        completedStudies s @ [\<lparr>timestamp = now, studyRvu = currentStudyRVU s\<rparr>] \<and>
      rollingRVU (completeStudy now s) =
        rollingUnitValue now (completedStudies (completeStudy now s))) \<and>
   (r \<in> set (filter (withinTrailingHour now) rs) \<longleftrightarrow>
      r \<in> set rs \<and> now - timestamp r \<le> 60 * 60 * 1000) \<and>
   completedStudies (run initialSession
     ([SelectModality CT, ClickParTime, Tick, ClickElapsedTime 0] @
      [SelectModality CT, ClickParTime, Tick, ClickElapsedTime (30 * 60 * 1000)] @
      [SelectModality CT, ClickParTime, Tick, ClickElapsedTime (70 * 60 * 1000)])) =
     [\<lparr>timestamp = 0, studyRvu = toDouble 1\<rparr>,
      \<lparr>timestamp = 30 * 60 * 1000, studyRvu = toDouble 1\<rparr>,
      \<lparr>timestamp = 70 * 60 * 1000, studyRvu = toDouble 1\<rparr>] \<and>
   rollingRVU (run initialSession
     ([SelectModality CT, ClickParTime, Tick, ClickElapsedTime 0] @
      [SelectModality CT, ClickParTime, Tick, ClickElapsedTime (30 * 60 * 1000)] @
      [SelectModality CT, ClickParTime, Tick, ClickElapsedTime (70 * 60 * 1000)])) = toDouble 2"
proof -
  have general: "completes s \<longrightarrow>
      completedStudies (completeStudy now s) =
        completedStudies s @ [\<lparr>timestamp = now, studyRvu = currentStudyRVU s\<rparr>] \<and>
      rollingRVU (completeStudy now s) =
        rollingUnitValue now (completedStudies (completeStudy now s))"
    by (simp add: completeStudy_log completeStudy_rolling)
  have member: "r \<in> set (filter (withinTrailingHour now) rs) \<longleftrightarrow>
      r \<in> set rs \<and> now - timestamp r \<le> 60 * 60 * 1000"
    by (auto simp: withinTrailingHour_def)
  define a where "a = run initialSession [SelectModality CT, ClickParTime, Tick]"
  define a' where "a' = run a [ClickElapsedTime 0]"
  define b where "b = run a' [SelectModality CT, ClickParTime, Tick]"
  define b' where "b' = run b [ClickElapsedTime (30 * 60 * 1000)]"
  define c where "c = run b' [SelectModality CT, ClickParTime, Tick]"
  define c' where "c' = run c [ClickElapsedTime (70 * 60 * 1000)]"
  have e: "run initialSession
     ([SelectModality CT, ClickParTime, Tick, ClickElapsedTime 0] @
      [SelectModality CT, ClickParTime, Tick, ClickElapsedTime (30 * 60 * 1000)] @
      [SelectModality CT, ClickParTime, Tick, ClickElapsedTime (70 * 60 * 1000)]) = c'"
    by (simp add: run_Nil run_Cons run_append a_def a'_def b_def b'_def c_def c'_def)
  note sa = start_study [OF betweenStudies_initial, of CT, folded a_def]
  note fa = finish_study [OF sa(1), of 0, folded a'_def]
  note sb = start_study [OF fa(1), of CT, folded b_def]
  note fb = finish_study [OF sb(1), of "30 * 60 * 1000", folded b'_def]
  note sc = start_study [OF fb(1), of CT, folded c_def]
  note fc = finish_study [OF sc(1), of "70 * 60 * 1000", folded c'_def]
  have log_c: "completedStudies c =
     [\<lparr>timestamp = 0, studyRvu = toDouble 1\<rparr>,
      \<lparr>timestamp = 30 * 60 * 1000, studyRvu = toDouble 1\<rparr>]"
    by (simp add: sc(3) fb(3) sb(3) fa(3) sa(3) studyTimed_rvu(2) [OF sa(1)]
          studyTimed_rvu(2) [OF sb(1)] initialSession_def)
  have log: "completedStudies c' =
     [\<lparr>timestamp = 0, studyRvu = toDouble 1\<rparr>,
      \<lparr>timestamp = 30 * 60 * 1000, studyRvu = toDouble 1\<rparr>,
      \<lparr>timestamp = 70 * 60 * 1000, studyRvu = toDouble 1\<rparr>]"
    by (simp add: fc(3) log_c studyTimed_rvu(2) [OF sc(1)])
  have "rollingRVU c' =
     rollingUnitValue (70 * 60 * 1000)
       (completedStudies c @ [\<lparr>timestamp = 70 * 60 * 1000, studyRvu = currentStudyRVU c\<rparr>])"
    unfolding c'_def run_Cons run_Nil step_ClickElapsedTime
    by (rule completeStudy_rolling [OF studyTimed_completes [OF sc(1)]])
  then have rolling: "rollingRVU c' = toDouble 2"
    by (simp add: log_c studyTimed_rvu(2) [OF sc(1)] rollingUnitValue_def withinTrailingHour_def
          double_eval)
  from general member log rolling show ?thesis
    unfolding e by blast
qed

theorem rollingRVU_trailing_hour_witness:
  "completes (run initialSession [SelectModality CT, ClickParTime, Tick]) \<and>
   rollingRVU (completeStudy 0 (run initialSession [SelectModality CT, ClickParTime, Tick])) =
     rollingUnitValue 0
       (completedStudies
          (completeStudy 0 (run initialSession [SelectModality CT, ClickParTime, Tick]))) \<and>
   completedStudies
     (completeStudy 0 (run initialSession [SelectModality CT, ClickParTime, Tick])) =
     [\<lparr>timestamp = 0, studyRvu = toDouble 1\<rparr>]"
proof -
  define a where "a = run initialSession [SelectModality CT, ClickParTime, Tick]"
  note sa = start_study [OF betweenStudies_initial, of CT, folded a_def]
  have h: "completes a"
    by (rule studyTimed_completes [OF sa(1)])
  have l: "completedStudies a = []"
    by (simp add: sa(3) initialSession_def)
  from rollingRVU_trailing_hour [of a 0] h l studyTimed_rvu(2) [OF sa(1)] show ?thesis
    unfolding a_def [symmetric] by simp
qed

section \<open>Completing and undoing\<close>

lemma undo_complete:
  assumes "completes s"
  shows "cumulativeVariance (undoLastStudy (completeStudy now s)) =
           jsub (jadd (cumulativeVariance s) (studyVariance s)) (studyVariance s)"
    and "currentStreak (undoLastStudy (completeStudy now s)) = currentStreak s"
    and "studiesCompleted (undoLastStudy (completeStudy now s)) = studiesCompleted s"
    and "totalRVU (undoLastStudy (completeStudy now s)) =
           jsub (jadd (totalRVU s) (currentStudyRVU s)) (currentStudyRVU s)"
    and "lastStudy (undoLastStudy (completeStudy now s)) = None"
  using assms by (auto simp: completes_def completeStudy_def undoLastStudy_def Let_def)

lemma undoLastStudy_no_snapshot: "lastStudy s = None \<Longrightarrow> undoLastStudy s = s"
  by (simp add: undoLastStudy_def)

lemma step_ClickUndo: "step s ClickUndo = undoLastStudy s"
  by (simp add: step_def autoStartEffect_def undoLastStudy_def Let_def split: option.splits)

lemma jsub_jadd_exact: "ratOf (jadd t v) = ratOf t + ratOf v \<Longrightarrow> jsub (jadd t v) v = t"
  by (simp add: double_eq_iff ratOf_jsub)

lemma fl_Ints_exact:
  assumes "x \<in> \<int>" and "\<bar>x\<bar> < 2 ^ 53"
  shows "fl x = x"
proof -
  from assms(1) obtain n where x: "x = of_int n" by (elim Ints_cases)
  have "(of_int \<bar>n\<bar> :: rat) < of_int (2 ^ 53)"
    using assms(2) by (simp add: x)
  then have "\<bar>n\<bar> < 2 ^ 53" by (simp only: of_int_less_iff)
  then show ?thesis by (simp only: x fl_of_int)
qed

lemma jadd_whole_exact:
  "ratOf t \<in> \<int> \<Longrightarrow> ratOf v \<in> \<int> \<Longrightarrow> \<bar>ratOf t + ratOf v\<bar> < 2 ^ 53 \<Longrightarrow>
     ratOf (jadd t v) = ratOf t + ratOf v"
  by (simp add: ratOf_jadd fl_Ints_exact)

text \<open>
  Claim C3 as stated fails for the two totals that are undone by a subtraction. The total
  of unit values is a double, and adding a unit value and subtracting it again rounds
  twice: after one XR study (0.2), completing a CT study (1.0) and undoing it leaves
  0.19999999999999996, not 0.2. The cumulative variance is a double as well: after one XR
  study finished in 1 second (variance -89), with the par time of CT set to
  1152921504606846976 seconds in the settings, completing a CT study and undoing it leaves
  0, not -89.
\<close>

theorem undo_changes_totals:
  "completes (run initialSession
     ([SelectModality XR, ClickParTime, Tick, ClickElapsedTime 0] @
      [SelectModality CT, ClickParTime, Tick])) \<and>
   ratOf (totalRVU (run initialSession
     ([SelectModality XR, ClickParTime, Tick, ClickElapsedTime 0] @
      [SelectModality CT, ClickParTime, Tick]))) = 3602879701896397 / 18014398509481984 \<and>
   ratOf (totalRVU (run (run initialSession
     ([SelectModality XR, ClickParTime, Tick, ClickElapsedTime 0] @
      [SelectModality CT, ClickParTime, Tick])) [ClickElapsedTime 60000, ClickUndo])) =
     900719925474099 / 4503599627370496 \<and>
   totalRVU (run (run initialSession
     ([SelectModality XR, ClickParTime, Tick, ClickElapsedTime 0] @
      [SelectModality CT, ClickParTime, Tick])) [ClickElapsedTime 60000, ClickUndo]) \<noteq>
   totalRVU (run initialSession
     ([SelectModality XR, ClickParTime, Tick, ClickElapsedTime 0] @
      [SelectModality CT, ClickParTime, Tick])) \<and>
   completes (run initialSession
     ([SelectModality XR, ClickParTime, Tick, ClickElapsedTime 0] @
      [SetParTimes (updateParTime ''CT'' ''1152921504606846976'' defaultParTimes)] @
      [SelectModality CT, ClickParTime, Tick])) \<and>
   ratOf (cumulativeVariance (run initialSession
     ([SelectModality XR, ClickParTime, Tick, ClickElapsedTime 0] @
      [SetParTimes (updateParTime ''CT'' ''1152921504606846976'' defaultParTimes)] @
      [SelectModality CT, ClickParTime, Tick]))) = - 89 \<and>
   ratOf (cumulativeVariance (run (run initialSession
     ([SelectModality XR, ClickParTime, Tick, ClickElapsedTime 0] @
      [SetParTimes (updateParTime ''CT'' ''1152921504606846976'' defaultParTimes)] @
      [SelectModality CT, ClickParTime, Tick])) [ClickElapsedTime 60000])) =
     - 1152921504606846976 \<and>
   ratOf (cumulativeVariance (run (run initialSession
     ([SelectModality XR, ClickParTime, Tick, ClickElapsedTime 0] @
      [SetParTimes (updateParTime ''CT'' ''1152921504606846976'' defaultParTimes)] @
      [SelectModality CT, ClickParTime, Tick])) [ClickElapsedTime 60000, ClickUndo])) = 0"
proof -
  define a where "a = run initialSession [SelectModality XR, ClickParTime, Tick]"
  define a' where "a' = run a [ClickElapsedTime 0]"
  define b where "b = run a' [SelectModality CT, ClickParTime, Tick]"
  have e: "run initialSession
     ([SelectModality XR, ClickParTime, Tick, ClickElapsedTime 0] @
      [SelectModality CT, ClickParTime, Tick]) = b"
    by (simp add: run_Nil run_Cons run_append a_def a'_def b_def)
  note sa = start_study [OF betweenStudies_initial, of XR, folded a_def]
  note fa = finish_study [OF sa(1), of 0, folded a'_def]
  note sb = start_study [OF fa(1), of CT, folded b_def]
  have c: "completes b"
    by (rule studyTimed_completes [OF sb(1)])
  have t: "totalRVU b = toDouble (1/5)"
    by (simp add: sb(2) fa(2) sa(2) studyTimed_rvu(1) [OF sa(1)] initialSession_def)
  have u: "run b [ClickElapsedTime 60000, ClickUndo] = undoLastStudy (completeStudy 60000 b)"
    by (simp add: run_Nil run_Cons step_ClickElapsedTime step_ClickUndo)
  have before: "ratOf (totalRVU b) = 3602879701896397 / 18014398509481984"
    by (simp add: t fl_1_5)
  have after: "ratOf (totalRVU (run b [ClickElapsedTime 60000, ClickUndo])) =
      900719925474099 / 4503599627370496"
    by (simp add: u undo_complete(4) [OF c] t studyTimed_rvu(2) [OF sb(1)] double_eval)
  have differ: "totalRVU (run b [ClickElapsedTime 60000, ClickUndo]) \<noteq> totalRVU b"
    by (simp add: double_eq_iff before after)
  define cfg where "cfg = updateParTime ''CT'' ''1152921504606846976'' defaultParTimes"
  define d where "d = run a' [SetParTimes cfg]"
  define g where "g = run d [SelectModality CT, ClickParTime, Tick]"
  have e': "run initialSession
     ([SelectModality XR, ClickParTime, Tick, ClickElapsedTime 0] @ [SetParTimes cfg] @
      [SelectModality CT, ClickParTime, Tick]) = g"
    by (simp add: run_Nil run_Cons run_append a_def a'_def d_def g_def)
  note sd = set_parTimes [OF fa(1), of cfg, folded d_def]
  note sg = start_study [OF sd(1), of CT, folded g_def]
  have cg: "completes g"
    by (rule studyTimed_completes [OF sg(1)])
  have pa: "parTimes a = defaultParTimes"
    by (simp add: sa(5) initialSession_def)
  have va: "ratOf (studyVariance a) = - 89"
    by (simp add: studyTimed_variance [OF sa(1)] pa parTimeOr0_def defaultParTimes_def
          ratOf_jsub fl_numeral_values parTime_values fl_minus)
  have cv: "ratOf (cumulativeVariance g) = - 89"
    by (simp add: sg(4) sd(3) fa(4) sa(4) initialSession_def va)
  have ct: "parTimeOr0 cfg ''CT'' = toDouble 1152921504606846976"
    by (simp add: cfg_def parTime_eval text_eval)
  have vg: "ratOf (studyVariance g) = - 1152921504606846976"
    by (simp add: studyTimed_variance [OF sg(1)] sg(5) sd(2) ct ratOf_jsub fl_numeral_values
          fl_2_60 fl_2_60_minus_1 fl_minus)
  have completed: "ratOf (cumulativeVariance (run g [ClickElapsedTime 60000])) =
      - 1152921504606846976"
    by (simp add: finish_study(4) [OF sg(1)] ratOf_jadd cv vg fl_2_60_plus_89 fl_minus)
  have ug: "run g [ClickElapsedTime 60000, ClickUndo] = undoLastStudy (completeStudy 60000 g)"
    by (simp add: run_Nil run_Cons step_ClickElapsedTime step_ClickUndo)
  have undone: "ratOf (cumulativeVariance (run g [ClickElapsedTime 60000, ClickUndo])) = 0"
    by (simp add: ug undo_complete(1) [OF cg] ratOf_jsub ratOf_jadd cv vg fl_2_60_plus_89
          fl_minus)
  from c before after differ cg cv completed undone show ?thesis
    unfolding e e' [unfolded cfg_def] by blast
qed

text \<open>
  Claim C3, amended. Completing one study and undoing it at once restores the streak and
  the number of completed studies exactly. The cumulative variance becomes
  (cumulative + variance) - variance and the total of unit values becomes
  (total + value) - value, both in double-precision arithmetic: the old value whenever the
  addition is exact and finite, which it is for a cumulative variance and a variance that
  are whole numbers with a sum of magnitude below \<open>2^53\<close>, and otherwise possibly a
  rounding error away from it. The undo consumes the snapshot, so a second undo, like any undo without a
  snapshot, changes nothing.
\<close>

theorem complete_then_undo:
  "(completes s \<longrightarrow>
      currentStreak (undoLastStudy (completeStudy now s)) = currentStreak s \<and>
      studiesCompleted (undoLastStudy (completeStudy now s)) = studiesCompleted s \<and>
      cumulativeVariance (undoLastStudy (completeStudy now s)) =
        jsub (jadd (cumulativeVariance s) (studyVariance s)) (studyVariance s) \<and>
      (ratOf (jadd (cumulativeVariance s) (studyVariance s)) =
         ratOf (cumulativeVariance s) + ratOf (studyVariance s) \<and>
       \<bar>ratOf (cumulativeVariance s) + ratOf (studyVariance s)\<bar> \<le> maxDouble \<longrightarrow>
       cumulativeVariance (undoLastStudy (completeStudy now s)) = cumulativeVariance s) \<and>
      (ratOf (cumulativeVariance s) \<in> \<int> \<and> ratOf (studyVariance s) \<in> \<int> \<and>
       \<bar>ratOf (cumulativeVariance s) + ratOf (studyVariance s)\<bar> < 2 ^ 53 \<longrightarrow>
       cumulativeVariance (undoLastStudy (completeStudy now s)) = cumulativeVariance s) \<and>
      totalRVU (undoLastStudy (completeStudy now s)) =
        jsub (jadd (totalRVU s) (currentStudyRVU s)) (currentStudyRVU s) \<and>
      (ratOf (jadd (totalRVU s) (currentStudyRVU s)) =
         ratOf (totalRVU s) + ratOf (currentStudyRVU s) \<and>
       \<bar>ratOf (totalRVU s) + ratOf (currentStudyRVU s)\<bar> \<le> maxDouble \<longrightarrow>
       totalRVU (undoLastStudy (completeStudy now s)) = totalRVU s) \<and>
      undoLastStudy (undoLastStudy (completeStudy now s)) = undoLastStudy (completeStudy now s)) \<and>
   (lastStudy s = None \<longrightarrow> undoLastStudy s = s)"
proof -
  have whole: "jsub (jadd t v) v = t"
    if "ratOf t \<in> \<int> \<and> ratOf v \<in> \<int> \<and> \<bar>ratOf t + ratOf v\<bar> < 2 ^ 53" for t v
    using that by (intro jsub_jadd_exact jadd_whole_exact) simp_all
  show ?thesis
    by (auto simp: undo_complete undoLastStudy_no_snapshot jsub_jadd_exact whole)
qed

theorem complete_then_undo_witness:
  "completes (run initialSession [SelectModality XR, ClickParTime, Tick]) \<and>
   studiesCompleted
     (undoLastStudy (completeStudy 0 (run initialSession [SelectModality XR, ClickParTime, Tick])))
     = 0 \<and>
   ratOf (studyVariance (run initialSession [SelectModality XR, ClickParTime, Tick])) = - 89 \<and>
   cumulativeVariance
     (undoLastStudy (completeStudy 0 (run initialSession [SelectModality XR, ClickParTime, Tick])))
     = jzero \<and>
   totalRVU
     (undoLastStudy (completeStudy 0 (run initialSession [SelectModality XR, ClickParTime, Tick])))
     = jzero \<and>
   lastStudy initialSession = None \<and> undoLastStudy initialSession = initialSession"
proof -
  define a where "a = run initialSession [SelectModality XR, ClickParTime, Tick]"
  note sa = start_study [OF betweenStudies_initial, of XR, folded a_def]
  have c: "completes a"
    by (rule studyTimed_completes [OF sa(1)])
  have t: "totalRVU a = jzero" "studiesCompleted a = 0" "cumulativeVariance a = jzero"
    by (simp_all add: sa(2) sa(4) a_def session_eval)
  have pa: "parTimes a = defaultParTimes"
    by (simp add: sa(5) initialSession_def)
  have va: "ratOf (studyVariance a) = - 89"
    by (simp add: studyTimed_variance [OF sa(1)] pa parTimeOr0_def defaultParTimes_def
          ratOf_jsub fl_numeral_values parTime_values fl_minus)
  have x: "ratOf (jadd (totalRVU a) (currentStudyRVU a)) =
      ratOf (totalRVU a) + ratOf (currentStudyRVU a)"
    "\<bar>ratOf (totalRVU a) + ratOf (currentStudyRVU a)\<bar> \<le> maxDouble"
    by (simp_all add: t studyTimed_rvu(1) [OF sa(1)] fl_1_5 maxDouble_def)
  have y: "ratOf (jadd (cumulativeVariance a) (studyVariance a)) =
      ratOf (cumulativeVariance a) + ratOf (studyVariance a)"
    "\<bar>ratOf (cumulativeVariance a) + ratOf (studyVariance a)\<bar> \<le> maxDouble"
    by (simp_all add: t va maxDouble_def)
  have z: "ratOf (cumulativeVariance a) \<in> \<int> \<and> ratOf (studyVariance a) \<in> \<int> \<and>
      \<bar>ratOf (cumulativeVariance a) + ratOf (studyVariance a)\<bar> < 2 ^ 53"
    by (simp add: t va)
  have n: "lastStudy initialSession = None"
    by (simp add: initialSession_def)
  have r: "studiesCompleted (undoLastStudy (completeStudy 0 a)) = studiesCompleted a"
    "totalRVU (undoLastStudy (completeStudy 0 a)) = totalRVU a"
    "cumulativeVariance (undoLastStudy (completeStudy 0 a)) = cumulativeVariance a"
    using complete_then_undo [of a 0] c x y z by blast+
  have i: "undoLastStudy initialSession = initialSession"
    using complete_then_undo [of initialSession 0] n by blast
  from r i c n va show ?thesis
    unfolding a_def [symmetric] by (simp add: t)
qed
section \<open>Export followed by import\<close>

lemma showNat_digit: "n < 10 \<Longrightarrow> showNat n = [digitChar n]"
  by (simp add: showNat.simps)

lemma numberToString_one_digit:
  assumes v: "ratOf x = v" and pos: "0 < v"
    and lo: "of_int f < v" and hi: "v < of_int f + 1"
    and near: "roundHalfEven (v * 10) = int n" and again: "fl (of_nat n / 10) = v"
  shows "numberToString x = showNat (n div 10) @ ''.'' @ showNat (n mod 10)"
proof -
  have fl: "\<lfloor>v\<rfloor> = f"
    using lo hi by (simp add: floor_eq_iff)
  have frac: "v \<noteq> of_int \<lfloor>v\<rfloor>"
    using lo by (simp add: fl)
  have rb: "readsBack v (Suc 0)"
    by (simp add: readsBack_def near again)
  have d: "shortestFraction b (Suc 0) v = Suc 0" for b
    by (subst shortestFraction.simps) (simp add: rb)
  have m: "n mod 10 < 10" by simp
  show ?thesis
    using pos frac
    by (simp add: numberToString_def v Let_def d near padZeros_def showNat_digit [OF m] abs_of_pos)
qed

lemma numberToString_defaults:
  "numberToString (toDouble (1/5)) = ''0.2''"
  "numberToString (toDouble (2/5)) = ''0.4''"
  "numberToString (toDouble (1/2)) = ''0.5''"
  "numberToString (toDouble (13/10)) = ''1.3''"
  "numberToString (toDouble (3/5)) = ''0.6''"
  "numberToString (toDouble (12/5)) = ''2.4''"
  using
    numberToString_one_digit [of "toDouble (1/5)" "3602879701896397 / 18014398509481984" 0 2]
    roundHalfEven_nearest [of 2 "3602879701896397 / 18014398509481984 * 10"]
    numberToString_one_digit [of "toDouble (2/5)" "3602879701896397 / 9007199254740992" 0 4]
    roundHalfEven_nearest [of 4 "3602879701896397 / 9007199254740992 * 10"]
    numberToString_one_digit [of "toDouble (1/2)" "1/2" 0 5]
    roundHalfEven_nearest [of 5 "1/2 * 10"]
    numberToString_one_digit [of "toDouble (13/10)" "5854679515581645 / 4503599627370496" 1 13]
    roundHalfEven_nearest [of 13 "5854679515581645 / 4503599627370496 * 10"]
    numberToString_one_digit [of "toDouble (3/5)" "5404319552844595 / 9007199254740992" 0 6]
    roundHalfEven_nearest [of 6 "5404319552844595 / 9007199254740992 * 10"]
    numberToString_one_digit [of "toDouble (12/5)" "5404319552844595 / 2251799813685248" 2 24]
    roundHalfEven_nearest [of 24 "5404319552844595 / 2251799813685248 * 10"]
  by (simp_all add: fl_1_5 fl_2_5 fl_half fl_13_10 fl_3_5 fl_12_5 showNat.simps digitChar_def)

lemma numberToString_one: "numberToString (toDouble 1) = ''1''"
  by (simp add: numberToString_def fl_numeral_values showNat.simps digitChar_def)

lemma numberToString_numeral:
  "numeral k < (2::int) ^ 53 \<Longrightarrow> numberToString (toDouble (numeral k)) = showNat (numeral k)"
  by (simp add: numberToString_def fl_numeral)

lemma numberToString_zero: "numberToString (toDouble 0) = ''0''"
  by (simp add: numberToString_def showNat.simps digitChar_def)

lemmas export_eval =
  exportSettings_def rvuRows_def rvuModalityRow_def parTimeRow_def csvHeader_def
  showNat.simps digitChar_def numberToString_defaults numberToString_one
  numberToString_numeral numberToString_zero

lemma par_300:
  "updateParTime ''CT'' ''300'' defaultParTimes =
     AList.update ''CT'' (toDouble 300) defaultParTimes"
  by (simp add: parTime_eval text_eval)

lemma export_rows:
  "exportSettings (AList.update ''CT'' (toDouble 300) defaultParTimes) defaultRVUValues =
   Some (join (CHR 0x0A)
     [''Setting Type,Key,Value,Modality'',
      ''Par Time,'' @ [quote] @ ''XR'' @ [quote] @ '',90,'',
      ''Par Time,'' @ [quote] @ ''FL'' @ [quote] @ '',120,'',
      ''Par Time,'' @ [quote] @ ''CT'' @ [quote] @ '',300,'',
      ''Par Time,'' @ [quote] @ ''US'' @ [quote] @ '',120,'',
      ''Par Time,'' @ [quote] @ ''MR'' @ [quote] @ '',240,'',
      ''Par Time,'' @ [quote] @ ''NM'' @ [quote] @ '',240,'',
      ''Par Time,'' @ [quote] @ ''MA'' @ [quote] @ '',240,'',
      ''Par Time,'' @ [quote] @ ''PET-CT'' @ [quote] @ '',600,'',
      ''Par Time,'' @ [quote] @ ''Cancer Follow'' @ [quote] @ '',240,'',
      ''Par Time,'' @ [quote] @ ''+1 Section'' @ [quote] @ '',120,'',
      ''Par Time,'' @ [quote] @ ''+2 Section'' @ [quote] @ '',240,'',
      ''Par Time,'' @ [quote] @ ''Multiple Priors'' @ [quote] @ '',120,'',
      ''Par Time,'' @ [quote] @ ''Age >70'' @ [quote] @ '',120,'',
      ''Par Time,'' @ [quote] @ ''Complex Hx'' @ [quote] @ '',120,'',
      ''Par Time,'' @ [quote] @ ''Prior Surg Hx'' @ [quote] @ '',120,'',
      ''Par Time,'' @ [quote] @ ''CTA'' @ [quote] @ '',180,'',
      ''Par Time,'' @ [quote] @ ''Bilateral'' @ [quote] @ '',0,'',
      ''Par Time,'' @ [quote] @ ''Vascular'' @ [quote] @ '',120,'',
      ''RVU,'' @ [quote] @ ''XR'' @ [quote] @ '',0.2,'',
      ''RVU,'' @ [quote] @ ''FL'' @ [quote] @ '',0.4,'',
      ''RVU,'' @ [quote] @ ''CT'' @ [quote] @ '',1,'',
      ''RVU,'' @ [quote] @ ''US'' @ [quote] @ '',0.5,'',
      ''RVU,'' @ [quote] @ ''MR'' @ [quote] @ '',1.3,'',
      ''RVU,'' @ [quote] @ ''NM'' @ [quote] @ '',0.6,'',
      ''RVU,'' @ [quote] @ ''MA'' @ [quote] @ '',1.3,'',
      ''RVU,'' @ [quote] @ ''PET-CT'' @ [quote] @ '',2.4,'',
      ''RVU,'' @ [quote] @ ''+1 Section'' @ [quote] @ '',0.5,'' @ [quote] @ ''CT'' @ [quote],
      ''RVU,'' @ [quote] @ ''+1 Section'' @ [quote] @ '',0.5,'' @ [quote] @ ''US'' @ [quote],
      ''RVU,'' @ [quote] @ ''+2 Section'' @ [quote] @ '',1,'' @ [quote] @ ''CT'' @ [quote],
      ''RVU,'' @ [quote] @ ''CTA'' @ [quote] @ '',0.4,'' @ [quote] @ ''CT'' @ [quote]])"
  by (simp add: export_eval defaultParTimes_def defaultRVUValues_def)

lemma split_join:
  "rows \<noteq> [] \<Longrightarrow> \<forall>r \<in> set rows. c \<notin> set r \<Longrightarrow> split c (join c rows) = rows"
proof (induction rows rule: join.induct)
  case (1 sep)
  then show ?case by simp
next
  case (2 sep x)
  then show ?case by (induction x) (auto split: list.splits)
next
  case (3 sep x y ys)
  then show ?case by (induction x) (auto split: list.splits)
qed

lemma update_same_key: "AList.update k v (AList.update k w al) = AList.update k v al"
  by (induction al) auto

lemma import_rows:
  "foldl importLine (defaultParTimes, defaultRVUValues) (drop 1
     [''Setting Type,Key,Value,Modality'',
      ''Par Time,'' @ [quote] @ ''XR'' @ [quote] @ '',90,'',
      ''Par Time,'' @ [quote] @ ''FL'' @ [quote] @ '',120,'',
      ''Par Time,'' @ [quote] @ ''CT'' @ [quote] @ '',300,'',
      ''Par Time,'' @ [quote] @ ''US'' @ [quote] @ '',120,'',
      ''Par Time,'' @ [quote] @ ''MR'' @ [quote] @ '',240,'',
      ''Par Time,'' @ [quote] @ ''NM'' @ [quote] @ '',240,'',
      ''Par Time,'' @ [quote] @ ''MA'' @ [quote] @ '',240,'',
      ''Par Time,'' @ [quote] @ ''PET-CT'' @ [quote] @ '',600,'',
      ''Par Time,'' @ [quote] @ ''Cancer Follow'' @ [quote] @ '',240,'',
      ''Par Time,'' @ [quote] @ ''+1 Section'' @ [quote] @ '',120,'',
      ''Par Time,'' @ [quote] @ ''+2 Section'' @ [quote] @ '',240,'',
      ''Par Time,'' @ [quote] @ ''Multiple Priors'' @ [quote] @ '',120,'',
      ''Par Time,'' @ [quote] @ ''Age >70'' @ [quote] @ '',120,'',
      ''Par Time,'' @ [quote] @ ''Complex Hx'' @ [quote] @ '',120,'',
      ''Par Time,'' @ [quote] @ ''Prior Surg Hx'' @ [quote] @ '',120,'',
      ''Par Time,'' @ [quote] @ ''CTA'' @ [quote] @ '',180,'',
      ''Par Time,'' @ [quote] @ ''Bilateral'' @ [quote] @ '',0,'',
      ''Par Time,'' @ [quote] @ ''Vascular'' @ [quote] @ '',120,'',
      ''RVU,'' @ [quote] @ ''XR'' @ [quote] @ '',0.2,'',
      ''RVU,'' @ [quote] @ ''FL'' @ [quote] @ '',0.4,'',
      ''RVU,'' @ [quote] @ ''CT'' @ [quote] @ '',1,'',
      ''RVU,'' @ [quote] @ ''US'' @ [quote] @ '',0.5,'',
      ''RVU,'' @ [quote] @ ''MR'' @ [quote] @ '',1.3,'',
      ''RVU,'' @ [quote] @ ''NM'' @ [quote] @ '',0.6,'',
      ''RVU,'' @ [quote] @ ''MA'' @ [quote] @ '',1.3,'',
      ''RVU,'' @ [quote] @ ''PET-CT'' @ [quote] @ '',2.4,'',
      ''RVU,'' @ [quote] @ ''+1 Section'' @ [quote] @ '',0.5,'' @ [quote] @ ''CT'' @ [quote],
      ''RVU,'' @ [quote] @ ''+1 Section'' @ [quote] @ '',0.5,'' @ [quote] @ ''US'' @ [quote],
      ''RVU,'' @ [quote] @ ''+2 Section'' @ [quote] @ '',1,'' @ [quote] @ ''CT'' @ [quote],
      ''RVU,'' @ [quote] @ ''CTA'' @ [quote] @ '',0.4,'' @ [quote] @ ''CT'' @ [quote]]) =
   (AList.update [] jzero defaultParTimes, AList.update [] (JNum jzero) defaultRVUValues)"
  by (simp add: importLine_def text_eval Let_def parseIntOr0_def parseInt_def ofInt_def
        parseFloatOr0_def parseFloat_def update_same_key fl_numeral jzero_def
        defaultParTimes_def defaultRVUValues_def)

lemma exported_rows_one_line:
  "\<forall>row \<in> set
     [''Setting Type,Key,Value,Modality'',
      ''Par Time,'' @ [quote] @ ''XR'' @ [quote] @ '',90,'',
      ''Par Time,'' @ [quote] @ ''FL'' @ [quote] @ '',120,'',
      ''Par Time,'' @ [quote] @ ''CT'' @ [quote] @ '',300,'',
      ''Par Time,'' @ [quote] @ ''US'' @ [quote] @ '',120,'',
      ''Par Time,'' @ [quote] @ ''MR'' @ [quote] @ '',240,'',
      ''Par Time,'' @ [quote] @ ''NM'' @ [quote] @ '',240,'',
      ''Par Time,'' @ [quote] @ ''MA'' @ [quote] @ '',240,'',
      ''Par Time,'' @ [quote] @ ''PET-CT'' @ [quote] @ '',600,'',
      ''Par Time,'' @ [quote] @ ''Cancer Follow'' @ [quote] @ '',240,'',
      ''Par Time,'' @ [quote] @ ''+1 Section'' @ [quote] @ '',120,'',
      ''Par Time,'' @ [quote] @ ''+2 Section'' @ [quote] @ '',240,'',
      ''Par Time,'' @ [quote] @ ''Multiple Priors'' @ [quote] @ '',120,'',
      ''Par Time,'' @ [quote] @ ''Age >70'' @ [quote] @ '',120,'',
      ''Par Time,'' @ [quote] @ ''Complex Hx'' @ [quote] @ '',120,'',
      ''Par Time,'' @ [quote] @ ''Prior Surg Hx'' @ [quote] @ '',120,'',
      ''Par Time,'' @ [quote] @ ''CTA'' @ [quote] @ '',180,'',
      ''Par Time,'' @ [quote] @ ''Bilateral'' @ [quote] @ '',0,'',
      ''Par Time,'' @ [quote] @ ''Vascular'' @ [quote] @ '',120,'',
      ''RVU,'' @ [quote] @ ''XR'' @ [quote] @ '',0.2,'',
      ''RVU,'' @ [quote] @ ''FL'' @ [quote] @ '',0.4,'',
      ''RVU,'' @ [quote] @ ''CT'' @ [quote] @ '',1,'',
      ''RVU,'' @ [quote] @ ''US'' @ [quote] @ '',0.5,'',
      ''RVU,'' @ [quote] @ ''MR'' @ [quote] @ '',1.3,'',
      ''RVU,'' @ [quote] @ ''NM'' @ [quote] @ '',0.6,'',
      ''RVU,'' @ [quote] @ ''MA'' @ [quote] @ '',1.3,'',
      ''RVU,'' @ [quote] @ ''PET-CT'' @ [quote] @ '',2.4,'',
      ''RVU,'' @ [quote] @ ''+1 Section'' @ [quote] @ '',0.5,'' @ [quote] @ ''CT'' @ [quote],
      ''RVU,'' @ [quote] @ ''+1 Section'' @ [quote] @ '',0.5,'' @ [quote] @ ''US'' @ [quote],
      ''RVU,'' @ [quote] @ ''+2 Section'' @ [quote] @ '',1,'' @ [quote] @ ''CT'' @ [quote],
      ''RVU,'' @ [quote] @ ''CTA'' @ [quote] @ '',0.4,'' @ [quote] @ ''CT'' @ [quote]]. CHR 0x0A \<notin> set row"
  by (simp add: quote_def)

text \<open>
  Claim C9 asks that importing the text written by the export gives back the exported
  par times and RVU values. It does not. The pattern of the import yields an empty match
  for every separating comma, so in a row written by the export the second match, read as
  the key, is empty, the third, read as the value, is the quoted key, and the fourth, read
  as the modality, is empty again. Every row therefore assigns to the key \<^verbatim>\<open>''\<close>, and the
  import returns the defaults with one more entry. After the par time of CT has been set to
  300 in the settings dialog, export and import bring CT back to the default 240.
\<close>

theorem import_of_export_loses_settings:
  "\<exists>text.
     exportSettings (updateParTime ''CT'' ''300'' defaultParTimes) defaultRVUValues = Some text \<and>
     importSettings text =
       (AList.update [] jzero defaultParTimes, AList.update [] (JNum jzero) defaultRVUValues) \<and>
     map_of (updateParTime ''CT'' ''300'' defaultParTimes) ''CT'' = Some (toDouble 300) \<and>
     map_of (fst (importSettings text)) ''CT'' = Some (toDouble 240) \<and>
     ratOf (toDouble 300) = 300 \<and> ratOf (toDouble 240) = 240"
proof -
  define rows where "rows =
     [''Setting Type,Key,Value,Modality'',
      ''Par Time,'' @ [quote] @ ''XR'' @ [quote] @ '',90,'',
      ''Par Time,'' @ [quote] @ ''FL'' @ [quote] @ '',120,'',
      ''Par Time,'' @ [quote] @ ''CT'' @ [quote] @ '',300,'',
      ''Par Time,'' @ [quote] @ ''US'' @ [quote] @ '',120,'',
      ''Par Time,'' @ [quote] @ ''MR'' @ [quote] @ '',240,'',
      ''Par Time,'' @ [quote] @ ''NM'' @ [quote] @ '',240,'',
      ''Par Time,'' @ [quote] @ ''MA'' @ [quote] @ '',240,'',
      ''Par Time,'' @ [quote] @ ''PET-CT'' @ [quote] @ '',600,'',
      ''Par Time,'' @ [quote] @ ''Cancer Follow'' @ [quote] @ '',240,'',
      ''Par Time,'' @ [quote] @ ''+1 Section'' @ [quote] @ '',120,'',
      ''Par Time,'' @ [quote] @ ''+2 Section'' @ [quote] @ '',240,'',
      ''Par Time,'' @ [quote] @ ''Multiple Priors'' @ [quote] @ '',120,'',
      ''Par Time,'' @ [quote] @ ''Age >70'' @ [quote] @ '',120,'',
      ''Par Time,'' @ [quote] @ ''Complex Hx'' @ [quote] @ '',120,'',
      ''Par Time,'' @ [quote] @ ''Prior Surg Hx'' @ [quote] @ '',120,'',
      ''Par Time,'' @ [quote] @ ''CTA'' @ [quote] @ '',180,'',
      ''Par Time,'' @ [quote] @ ''Bilateral'' @ [quote] @ '',0,'',
      ''Par Time,'' @ [quote] @ ''Vascular'' @ [quote] @ '',120,'',
      ''RVU,'' @ [quote] @ ''XR'' @ [quote] @ '',0.2,'',
      ''RVU,'' @ [quote] @ ''FL'' @ [quote] @ '',0.4,'',
      ''RVU,'' @ [quote] @ ''CT'' @ [quote] @ '',1,'',
      ''RVU,'' @ [quote] @ ''US'' @ [quote] @ '',0.5,'',
      ''RVU,'' @ [quote] @ ''MR'' @ [quote] @ '',1.3,'',
      ''RVU,'' @ [quote] @ ''NM'' @ [quote] @ '',0.6,'',
      ''RVU,'' @ [quote] @ ''MA'' @ [quote] @ '',1.3,'',
      ''RVU,'' @ [quote] @ ''PET-CT'' @ [quote] @ '',2.4,'',
      ''RVU,'' @ [quote] @ ''+1 Section'' @ [quote] @ '',0.5,'' @ [quote] @ ''CT'' @ [quote],
      ''RVU,'' @ [quote] @ ''+1 Section'' @ [quote] @ '',0.5,'' @ [quote] @ ''US'' @ [quote],
      ''RVU,'' @ [quote] @ ''+2 Section'' @ [quote] @ '',1,'' @ [quote] @ ''CT'' @ [quote],
      ''RVU,'' @ [quote] @ ''CTA'' @ [quote] @ '',0.4,'' @ [quote] @ ''CT'' @ [quote]]"
  have e: "exportSettings (updateParTime ''CT'' ''300'' defaultParTimes) defaultRVUValues =
      Some (join (CHR 0x0A) rows)"
    unfolding rows_def par_300 by (rule export_rows)
  have s: "split (CHR 0x0A) (join (CHR 0x0A) rows) = rows"
    using exported_rows_one_line unfolding rows_def [symmetric]
    by (intro split_join) (simp_all add: rows_def)
  have i: "importSettings (join (CHR 0x0A) rows) =
      (AList.update [] jzero defaultParTimes, AList.update [] (JNum jzero) defaultRVUValues)"
    unfolding importSettings_def s unfolding rows_def by (rule import_rows)
  have before:
    "map_of (updateParTime ''CT'' ''300'' defaultParTimes) ''CT'' = Some (toDouble 300)"
    unfolding par_300 by (simp add: defaultParTimes_def)
  have after:
    "map_of (fst (importSettings (join (CHR 0x0A) rows))) ''CT'' = Some (toDouble 240)"
    by (simp add: i defaultParTimes_def)
  have nums: "ratOf (toDouble 300) = 300" "ratOf (toDouble 240) = 240"
    by (simp_all add: parTime_values)
  from e i before after nums show ?thesis
    by blast
qed

end
